theory Spec2Isabelle
  imports Main "HOL-Library.Word" "HOL-Library.Sublist"
begin

unbundle bit_operations_syntax

chapter \<open>netonline: a passive network-connectivity monitor\<close>

text \<open>
  A shallow embedding of the Go package \<^verbatim>\<open>netonline\<close>: the wake-gap watcher
  (\<^verbatim>\<open>sleep_wake.go\<close>), the netlink message parser and the per-platform OS event
  sources, the Linux online evaluator, and the portable edge detector \<^verbatim>\<open>Watch\<close>
  (\<^verbatim>\<open>watch.go\<close>). The definitions come first, then descriptions of the expected
  behaviour to compare them with, then the properties.

  Conventions. A \<^verbatim>\<open>time.Duration\<close> and a reading of the monotonic clock are
  integers counting nanoseconds; Go keeps both in an \<^verbatim>\<open>int64\<close>, and the places
  where the source adds two of them have the wrap-around written out. A Go string is a
  \<^typ>\<open>string\<close> (a list of bytes), a byte slice is a list of \<^typ>\<open>8 word\<close>. A channel
  is the list of values waiting in its buffer, or, where only the order of the values
  matters, the list of values sent on it so far.
\<close>

section \<open>Durations\<close>

type_synonym Duration = int

definition Millisecond :: Duration where
  "Millisecond = 1000000"

definition Second :: Duration where
  "Second = 1000000000"

definition maxDuration :: Duration where
  "maxDuration = 2 ^ 63 - 1"

definition minDuration :: Duration where
  "minDuration = - (2 ^ 63)"

text \<open>The value an \<^verbatim>\<open>int64\<close> holds after an addition whose exact result is \<open>x\<close>.\<close>

definition wrap64 :: "int \<Rightarrow> int" where
  "wrap64 x = (x + 2 ^ 63) mod 2 ^ 64 - 2 ^ 63"

text \<open>
  \<^verbatim>\<open>t.Sub(u)\<close> of package \<^verbatim>\<open>time\<close> on two instants that carry a monotonic reading:
  the difference, held at the largest or smallest duration when it does not fit.
\<close>

definition Sub :: "int \<Rightarrow> int \<Rightarrow> Duration" where
  "Sub t u = max minDuration (min maxDuration (t - u))"

section \<open>The wake-gap watcher (\<^verbatim>\<open>sleep_wake.go\<close>)\<close>

text \<open>
  The state of the goroutine started by \<^verbatim>\<open>StartWakeGapWatcher\<close>: the two periods
  after defaulting, the local \<^verbatim>\<open>last\<close>, the number of signals waiting in the
  channel \<^verbatim>\<open>out\<close> (capacity 1), and whether the goroutine has returned.
\<close>

record wake_watcher =
  sample :: Duration
  gapThreshold :: Duration
  last_tick :: int
  out_len :: nat
  returned :: bool

definition StartWakeGapWatcher :: "Duration \<Rightarrow> Duration \<Rightarrow> int \<Rightarrow> wake_watcher" where
  "StartWakeGapWatcher sample0 gapThreshold0 now0 =
     \<lparr> sample = (if sample0 \<le> 0 then Second else sample0),
       gapThreshold = (if gapThreshold0 \<le> 0 then 1500 * Millisecond else gapThreshold0),
       last_tick = now0,
       out_len = 0,
       returned = False \<rparr>"

text \<open>The right-hand side of the comparison: \<^verbatim>\<open>sample + gapThreshold\<close> in \<^verbatim>\<open>int64\<close>.\<close>

definition wake_threshold :: "wake_watcher \<Rightarrow> Duration" where
  "wake_threshold w = wrap64 (sample w + gapThreshold w)"

text \<open>
  What the goroutine's \<^verbatim>\<open>select\<close> can receive: a tick of the ticker carrying its
  instant, or the cancellation of the context. \<open>Receive\<close> is the consumer taking one
  signal out of the channel.
\<close>

datatype wake_input = Tick int | Done | Receive

datatype wake_outcome = Sent | Dropped | Quiet

text \<open>
  One tick: \<^verbatim>\<open>d := now.Sub(last); last = now\<close>, then the non-blocking send
  \<^verbatim>\<open>select { case out <- struct{}{}: default: }\<close> when \<^verbatim>\<open>d >= sample + gapThreshold\<close>.
\<close>

definition wake_tick :: "int \<Rightarrow> wake_watcher \<Rightarrow> wake_outcome \<times> wake_watcher" where
  "wake_tick now w =
     (let d = Sub now (last_tick w);
          w' = w\<lparr>last_tick := now\<rparr>
      in if wake_threshold w \<le> d
         then (if out_len w' < 1 then (Sent, w'\<lparr>out_len := out_len w' + 1\<rparr>)
               else (Dropped, w'))
         else (Quiet, w'))"

text \<open>
  The loop over what arrives. The result lists the outcome of every tick handled, in
  order. After \<open>Done\<close> the goroutine has returned and ticks are no longer handled.
\<close>

fun wake_run :: "wake_watcher \<Rightarrow> wake_input list \<Rightarrow> wake_outcome list \<times> wake_watcher" where
  "wake_run w [] = ([], w)"
| "wake_run w (Tick now # ins) =
     (if returned w then wake_run w ins
      else (let (r, w') = wake_tick now w; (rs, w'') = wake_run w' ins in (r # rs, w'')))"
| "wake_run w (Done # ins) = wake_run (w\<lparr>returned := True\<rparr>) ins"
| "wake_run w (Receive # ins) = wake_run (w\<lparr>out_len := out_len w - 1\<rparr>) ins"

text \<open>The instants of the ticks that arrive before the cancellation.\<close>

fun ticks_handled :: "wake_input list \<Rightarrow> int list" where
  "ticks_handled [] = []"
| "ticks_handled (Tick now # ins) = now # ticks_handled ins"
| "ticks_handled (Done # ins) = []"
| "ticks_handled (Receive # ins) = ticks_handled ins"

text \<open>For each tick, whether it came at least \<open>thr\<close> after the one before it.\<close>

fun gaps_reached :: "Duration \<Rightarrow> int \<Rightarrow> int list \<Rightarrow> bool list" where
  "gaps_reached thr prev [] = []"
| "gaps_reached thr prev (now # ts) = (thr \<le> Sub now prev) # gaps_reached thr now ts"

section \<open>Netlink messages (\<^verbatim>\<open>parseNlMsgs\<close>, Linux)\<close>

type_synonym byte = "8 word"

record nlmsghdr =
  Len :: "32 word"
  Type :: "16 word"
  Flags :: "16 word"
  Seq :: "32 word"
  Pid :: "32 word"

record nlmsg =
  Header :: nlmsghdr
  Body :: "byte list"

text \<open>
  \<^verbatim>\<open>unsafe.Sizeof(nlmsghdr{})\<close>: two 32-bit, two 16-bit and two more 32-bit fields.
\<close>

definition hdrLen :: nat where
  "hdrLen = 16"

text \<open>Integers of the header as the host stores them, least significant byte first.\<close>

definition le16 :: "byte \<Rightarrow> byte \<Rightarrow> 16 word" where
  "le16 b0 b1 = ucast b0 OR push_bit 8 (ucast b1)"

definition le32 :: "byte \<Rightarrow> byte \<Rightarrow> byte \<Rightarrow> byte \<Rightarrow> 32 word" where
  "le32 b0 b1 b2 b3 =
     ucast b0 OR push_bit 8 (ucast b1) OR push_bit 16 (ucast b2) OR push_bit 24 (ucast b3)"

text \<open>
  \<^verbatim>\<open>*(*nlmsghdr)(unsafe.Pointer(&b[0]))\<close>: the sixteen bytes from \<^verbatim>\<open>b[0]\<close> on, read
  as a header. The read stays inside the slice only when it has sixteen bytes; the
  model has no header otherwise.
\<close>

definition readHeader :: "byte list \<Rightarrow> nlmsghdr option" where
  "readHeader b =
     (if length b < hdrLen then None
      else Some \<lparr> Len = le32 (b ! 0) (b ! 1) (b ! 2) (b ! 3),
                  Type = le16 (b ! 4) (b ! 5),
                  Flags = le16 (b ! 6) (b ! 7),
                  Seq = le32 (b ! 8) (b ! 9) (b ! 10) (b ! 11),
                  Pid = le32 (b ! 12) (b ! 13) (b ! 14) (b ! 15) \<rparr>)"

text \<open>
  The conversion \<^verbatim>\<open>int(x)\<close> of a \<^verbatim>\<open>uint32\<close>. Go's \<^verbatim>\<open>int\<close> has 64 bits on amd64
  and arm64 and 32 bits on 386 and arm; \<open>intSize\<close> is that width. With 32 bits the
  values from \<open>2 ^ 31\<close> on become negative.
\<close>

definition to_int :: "nat \<Rightarrow> 32 word \<Rightarrow> int" where
  "to_int intSize x =
     (let v = uint x mod 2 ^ intSize
      in if v < 2 ^ (intSize - 1) then v else v - 2 ^ intSize)"

text \<open>
  The slice expressions \<^verbatim>\<open>b[lo:hi]\<close> and \<^verbatim>\<open>b[lo:]\<close>. \<open>None\<close> is an index outside the
  slice. (Go itself panics only beyond the capacity of the underlying array; the model
  already refuses an index beyond the length, so that a result is always made of bytes
  of \<open>b\<close>.)
\<close>

definition slice_between :: "'a list \<Rightarrow> nat \<Rightarrow> nat \<Rightarrow> 'a list option" where
  "slice_between b lo hi = (if lo \<le> hi \<and> hi \<le> length b then Some (take (hi - lo) (drop lo b)) else None)"

definition slice_from :: "'a list \<Rightarrow> int \<Rightarrow> 'a list option" where
  "slice_from b lo = (if 0 \<le> lo \<and> lo \<le> int (length b) then Some (drop (nat lo) b) else None)"

text \<open>
  What a call of \<^verbatim>\<open>parseNlMsgs\<close> ends with: the two results of a \<^verbatim>\<open>return\<close> (the
  messages and the error, if any), or a run-time panic.
\<close>

datatype parse_result = Returned "nlmsg list" "string option" | Panicked

text \<open>
  The loop of \<^verbatim>\<open>parseNlMsgs\<close> on the rest \<open>b\<close> of the input with the messages \<open>out\<close>
  found so far. The result is \<open>None\<close> when the loop never ends.
\<close>

partial_function (option) parseNlMsgs_loop ::
  "nat \<Rightarrow> byte list \<Rightarrow> nlmsg list \<Rightarrow> parse_result option" where
  "parseNlMsgs_loop intSize b out =
     (if hdrLen \<le> length b then
        (case readHeader b of
           None \<Rightarrow> Some Panicked
         | Some h \<Rightarrow>
             if Len h < word_of_nat hdrLen \<or> int (length b) < to_int intSize (Len h)
             then Some (Returned out (Some ''invalid nlmsg len''))
             else (case slice_between b hdrLen (unat (Len h)) of
                     None \<Rightarrow> Some Panicked
                   | Some body \<Rightarrow>
                       (let out' = out @ [\<lparr> Header = h, Body = body \<rparr>];
                            adv = to_int intSize ((Len h + 3) AND NOT 3)
                        in if int (length b) < adv then Some (Returned out' None)
                           else (case slice_from b adv of
                                   None \<Rightarrow> Some Panicked
                                 | Some b' \<Rightarrow> parseNlMsgs_loop intSize b' out'))))
      else Some (Returned out None))"

definition parseNlMsgs :: "nat \<Rightarrow> byte list \<Rightarrow> parse_result option" where
  "parseNlMsgs intSize b = parseNlMsgs_loop intSize b []"

section \<open>The OS event sources (\<^verbatim>\<open>startOSEventStream\<close>)\<close>

record osEvent =
  reason :: string

text \<open>
  A buffered channel is the list of the values waiting in it, oldest first. The
  statement \<^verbatim>\<open>ch <- v\<close> appends when there is room and otherwise blocks the goroutine
  (\<open>None\<close>) until a receiver makes room; \<^verbatim>\<open>select { case ch <- v: default: }\<close> appends
  when there is room and otherwise goes on without sending.
\<close>

definition chan_send :: "nat \<Rightarrow> 'a list \<Rightarrow> 'a \<Rightarrow> 'a list option" where
  "chan_send capacity buf v = (if length buf < capacity then Some (buf @ [v]) else None)"

definition chan_try_send :: "nat \<Rightarrow> 'a list \<Rightarrow> 'a \<Rightarrow> 'a list" where
  "chan_try_send capacity buf v = (if length buf < capacity then buf @ [v] else buf)"

text \<open>\<^verbatim>\<open>make(chan osEvent, 8)\<close> and \<^verbatim>\<open>make(chan error, 1)\<close>, on every platform.\<close>

definition out_capacity :: nat where
  "out_capacity = 8"

definition errc_capacity :: nat where
  "errc_capacity = 1"

text \<open>The errors the readers build with \<^verbatim>\<open>fmt.Errorf\<close>, each around an \<^verbatim>\<open>errno\<close>.\<close>

datatype src_error = NetlinkRecv nat | InvalidNlmsgLen | RouteRecv nat

definition EINTR :: nat where
  "EINTR = 4"

record src_chans =
  out_buf :: "osEvent list"
  errc_buf :: "src_error list"

text \<open>
  Where one turn of a reader's loop leaves the goroutine: at the top of the loop again,
  returned (the deferred calls then close both channels), blocked in a send, or not
  running any more because the parser panicked or never came back.
\<close>

datatype progress = Continue src_chans | Return src_chans | Blocked src_chans | Panics | Hangs

text \<open>The message types of \<^verbatim>\<open>rtnetlink\<close> that the Linux reader tells apart.\<close>

definition RTM_NEWLINK :: "16 word" where "RTM_NEWLINK = 16"
definition RTM_DELLINK :: "16 word" where "RTM_DELLINK = 17"
definition RTM_NEWADDR :: "16 word" where "RTM_NEWADDR = 20"
definition RTM_DELADDR :: "16 word" where "RTM_DELADDR = 21"
definition RTM_NEWROUTE :: "16 word" where "RTM_NEWROUTE = 24"
definition RTM_DELROUTE :: "16 word" where "RTM_DELROUTE = 25"

definition reason_of_type :: "16 word \<Rightarrow> string option" where
  "reason_of_type t =
     (if t = RTM_NEWROUTE \<or> t = RTM_DELROUTE then Some ''route change''
      else if t = RTM_NEWADDR \<or> t = RTM_DELADDR then Some ''addr change''
      else if t = RTM_NEWLINK \<or> t = RTM_DELLINK then Some ''link change''
      else None)"

text \<open>
  \<^verbatim>\<open>for _, m := range msgs { switch m.Header.Type { ... out <- osEvent{...} } }\<close> of the
  Linux reader, on the buffer of \<^verbatim>\<open>out\<close> while nothing is received from it. The
  result is the buffer when the loop ends or stops, and whether it stopped because one
  of the sends blocks.
\<close>

fun linux_emit :: "osEvent list \<Rightarrow> nlmsg list \<Rightarrow> osEvent list \<times> bool" where
  "linux_emit buf [] = (buf, False)"
| "linux_emit buf (m # ms) =
     (case reason_of_type (Type (Header m)) of
        None \<Rightarrow> linux_emit buf ms
      | Some r \<Rightarrow>
          (case chan_send out_capacity buf \<lparr> reason = r \<rparr> of
             None \<Rightarrow> (buf, True)
           | Some buf' \<Rightarrow> linux_emit buf' ms))"

text \<open>What \<^verbatim>\<open>unix.Recvfrom\<close> and \<^verbatim>\<open>unix.Read\<close> give: an \<^verbatim>\<open>errno\<close>, or \<^verbatim>\<open>buf[:n]\<close>.\<close>

datatype read_result = ReadErr nat | ReadOK "byte list"

text \<open>
  One turn of the loop of the Linux reader. \<open>done\<close> says whether the context is
  cancelled when the turn starts.
\<close>

definition linux_iteration :: "nat \<Rightarrow> src_chans \<Rightarrow> bool \<times> read_result \<Rightarrow> progress" where
  "linux_iteration intSize st inp =
     (if fst inp then Return st
      else case snd inp of
        ReadErr e \<Rightarrow>
          (if e = EINTR then Continue st
           else case chan_send errc_capacity (errc_buf st) (NetlinkRecv e) of
                  None \<Rightarrow> Blocked st
                | Some eb \<Rightarrow> Return (st\<lparr>errc_buf := eb\<rparr>))
      | ReadOK bytes \<Rightarrow>
          (case parseNlMsgs intSize bytes of
             None \<Rightarrow> Hangs
           | Some Panicked \<Rightarrow> Panics
           | Some (Returned msgs (Some err)) \<Rightarrow>
               (case chan_send errc_capacity (errc_buf st) InvalidNlmsgLen of
                  None \<Rightarrow> Blocked st
                | Some eb \<Rightarrow> Continue (st\<lparr>errc_buf := eb\<rparr>))
           | Some (Returned msgs None) \<Rightarrow>
               (case linux_emit (out_buf st) msgs of
                  (ob, True) \<Rightarrow> Blocked (st\<lparr>out_buf := ob\<rparr>)
                | (ob, False) \<Rightarrow> Continue (st\<lparr>out_buf := ob\<rparr>))))"

text \<open>
  One turn of the loop of the BSD and macOS reader. \<open>parseRIB\<close> tells whether
  \<^verbatim>\<open>route.ParseRIB\<close> accepts the bytes; the source sends the same event either way.
\<close>

definition bsd_iteration :: "(byte list \<Rightarrow> bool) \<Rightarrow> src_chans \<Rightarrow> bool \<times> read_result \<Rightarrow> progress" where
  "bsd_iteration parseRIB st inp =
     (if fst inp then Return st
      else case snd inp of
        ReadErr e \<Rightarrow>
          (case chan_send errc_capacity (errc_buf st) (RouteRecv e) of
             None \<Rightarrow> Blocked st
           | Some eb \<Rightarrow> Return (st\<lparr>errc_buf := eb\<rparr>))
      | ReadOK bytes \<Rightarrow>
          (if \<not> parseRIB bytes
           then (case chan_send out_capacity (out_buf st) \<lparr> reason = ''net change'' \<rparr> of
                   None \<Rightarrow> Blocked st
                 | Some ob \<Rightarrow> Continue (st\<lparr>out_buf := ob\<rparr>))
           else (case chan_send out_capacity (out_buf st) \<lparr> reason = ''net change'' \<rparr> of
                   None \<Rightarrow> Blocked st
                 | Some ob \<Rightarrow> Continue (st\<lparr>out_buf := ob\<rparr>))))"

text \<open>A reader: its loop, turn after turn, over what the socket gives.\<close>

fun reader :: "(src_chans \<Rightarrow> bool \<times> read_result \<Rightarrow> progress) \<Rightarrow> src_chans \<Rightarrow>
    (bool \<times> read_result) list \<Rightarrow> progress" where
  "reader iteration st [] = Continue st"
| "reader iteration st (inp # inps) =
     (case iteration st inp of
        Continue st' \<Rightarrow> reader iteration st' inps
      | p \<Rightarrow> p)"

definition linux_reader :: "nat \<Rightarrow> src_chans \<Rightarrow> (bool \<times> read_result) list \<Rightarrow> progress" where
  "linux_reader intSize = reader (linux_iteration intSize)"

definition bsd_reader :: "(byte list \<Rightarrow> bool) \<Rightarrow> src_chans \<Rightarrow> (bool \<times> read_result) list \<Rightarrow> progress" where
  "bsd_reader parseRIB = reader (bsd_iteration parseRIB)"

text \<open>
  The closure \<^verbatim>\<open>send\<close> that the Windows callbacks run: nothing once the stop flag is
  set, and otherwise a send that does not block.
\<close>

definition win_send :: "bool \<Rightarrow> osEvent list \<Rightarrow> string \<Rightarrow> osEvent list" where
  "win_send stopped buf r =
     (if stopped then buf else chan_try_send out_capacity buf \<lparr> reason = r \<rparr>)"

section \<open>Strings and numbers of the Go library\<close>

text \<open>
  The functions of \<^verbatim>\<open>strings\<close>, \<^verbatim>\<open>bufio\<close> and \<^verbatim>\<open>strconv\<close> that the evaluator calls.
  White space is the white space of ASCII, which is all that the files under
  \<^verbatim>\<open>/proc\<close> and \<^verbatim>\<open>/sys\<close> hold (on bytes from 128 on Go decodes UTF-8 and also
  knows the white space of Unicode).
\<close>

definition isSpace :: "char \<Rightarrow> bool" where
  "isSpace c \<longleftrightarrow> c \<in> {CHR '' '', CHR 0x09, CHR 0x0A, CHR 0x0B, CHR 0x0C, CHR 0x0D}"

text \<open>\<^verbatim>\<open>strings.Fields\<close>: the maximal runs of characters that are not white space.\<close>

fun fields_from :: "string \<Rightarrow> string \<Rightarrow> string list" where
  "fields_from cur [] = (if cur = [] then [] else [cur])"
| "fields_from cur (c # cs) =
     (if isSpace c then (if cur = [] then fields_from [] cs else cur # fields_from [] cs)
      else fields_from (cur @ [c]) cs)"

definition Fields :: "string \<Rightarrow> string list" where
  "Fields s = fields_from [] s"

definition TrimSpace :: "string \<Rightarrow> string" where
  "TrimSpace s = rev (dropWhile isSpace (rev (dropWhile isSpace s)))"

text \<open>\<^verbatim>\<open>strings.Split(s, "\n")\<close>: one more piece than there are newlines.\<close>

fun split_from :: "string \<Rightarrow> string \<Rightarrow> string list" where
  "split_from cur [] = [cur]"
| "split_from cur (c # cs) =
     (if c = CHR 0x0A then cur # split_from [] cs else split_from (cur @ [c]) cs)"

definition SplitLines :: "string \<Rightarrow> string list" where
  "SplitLines s = split_from [] s"

text \<open>
  The tokens a \<^verbatim>\<open>bufio.Scanner\<close> with the default split function gives: the lines,
  without a last empty one, each without the carriage return it may end with. A line
  that does not fit the scanner's buffer of 64 KiB ends the scan.
\<close>

definition dropCR :: "string \<Rightarrow> string" where
  "dropCR l = (if l \<noteq> [] \<and> last l = CHR 0x0D then butlast l else l)"

definition MaxScanTokenSize :: nat where
  "MaxScanTokenSize = 65536"

definition ScanLines :: "string \<Rightarrow> string list" where
  "ScanLines s =
     (let pieces = SplitLines s;
          ls = (if last pieces = [] then butlast pieces else pieces)
      in map dropCR (takeWhile (\<lambda>l. length l < MaxScanTokenSize) ls))"

text \<open>
  The value of a digit or letter in \<^verbatim>\<open>strconv.ParseUint\<close>: \<^verbatim>\<open>0\<close> to \<^verbatim>\<open>9\<close>, then the
  letters in either case from ten on.
\<close>

definition digit_val :: "char \<Rightarrow> nat option" where
  "digit_val c =
     (let n = (of_char c :: nat)
      in if 48 \<le> n \<and> n \<le> 57 then Some (n - 48)
         else if 97 \<le> n \<and> n \<le> 122 then Some (n - 97 + 10)
         else if 65 \<le> n \<and> n \<le> 90 then Some (n - 65 + 10)
         else None)"

text \<open>
  What \<^verbatim>\<open>ParseUint\<close> returns: a value with no error, zero with a syntax error, or the
  largest value with a range error.
\<close>

datatype parsed = Val nat | SyntaxErr | RangeErr nat

definition maxUint64 :: nat where
  "maxUint64 = 2 ^ 64 - 1"

text \<open>The loop of \<^verbatim>\<open>ParseUint\<close> over the digits, \<open>n\<close> being the value read so far.\<close>

fun uint_digits :: "nat \<Rightarrow> bool \<Rightarrow> nat \<Rightarrow> nat \<Rightarrow> string \<Rightarrow> parsed" where
  "uint_digits base base0 maxVal n [] = Val n"
| "uint_digits base base0 maxVal n (c # cs) =
     (if c = CHR ''_'' \<and> base0 then uint_digits base base0 maxVal n cs
      else case digit_val c of
        None \<Rightarrow> SyntaxErr
      | Some d \<Rightarrow>
          if base \<le> d then SyntaxErr
          else if maxUint64 div base + 1 \<le> n then RangeErr maxVal
          else if maxVal < n * base + d then RangeErr maxVal
          else uint_digits base base0 maxVal (n * base + d) cs)"

text \<open>\<^verbatim>\<open>underscoreOK\<close>: underscores only between digits or after the base prefix.\<close>

fun underscore_scan :: "bool \<Rightarrow> char \<Rightarrow> string \<Rightarrow> bool" where
  "underscore_scan hex saw [] = (saw \<noteq> CHR ''_'')"
| "underscore_scan hex saw (c # cs) =
     (if (48 \<le> (of_char c :: nat) \<and> (of_char c :: nat) \<le> 57) \<or>
         (hex \<and> (case digit_val c of None \<Rightarrow> False | Some d \<Rightarrow> 10 \<le> d \<and> d \<le> 15))
      then underscore_scan hex (CHR ''0'') cs
      else if c = CHR ''_'' then (if saw \<noteq> CHR ''0'' then False else underscore_scan hex (CHR ''_'') cs)
      else if saw = CHR ''_'' then False
      else underscore_scan hex (CHR ''!'') cs)"

definition base_prefix :: "string \<Rightarrow> char option" where
  "base_prefix s =
     (case s of
        c0 # c1 # _ \<Rightarrow>
          (if c0 = CHR ''0'' \<and> c1 \<in> {CHR ''b'', CHR ''B''} then Some (CHR ''b'')
           else if c0 = CHR ''0'' \<and> c1 \<in> {CHR ''o'', CHR ''O''} then Some (CHR ''o'')
           else if c0 = CHR ''0'' \<and> c1 \<in> {CHR ''x'', CHR ''X''} then Some (CHR ''x'')
           else None)
      | _ \<Rightarrow> None)"

definition underscoreOK :: "string \<Rightarrow> bool" where
  "underscoreOK s0 =
     (let s = (case s0 of c # cs \<Rightarrow> (if c = CHR ''-'' \<or> c = CHR ''+'' then cs else s0) | [] \<Rightarrow> s0)
      in case base_prefix s of
           Some p \<Rightarrow> underscore_scan (p = CHR ''x'') (CHR ''0'') (drop 2 s)
         | None \<Rightarrow> underscore_scan False (CHR ''^'') s)"

text \<open>
  \<^verbatim>\<open>strconv.ParseUint(s, base, bitSize)\<close> for a base of 0 or from 2 to 36 and a size
  from 1 to 64. Base 0 takes the base from the prefix of \<open>s\<close>.
\<close>

definition ParseUint :: "string \<Rightarrow> nat \<Rightarrow> nat \<Rightarrow> parsed" where
  "ParseUint s base bitSize =
     (if s = [] then SyntaxErr
      else
        (let base0 = (base = 0);
             (b, ds) =
               (if base0 then
                  (if hd s = CHR ''0'' then
                     (if 3 \<le> length s \<and> base_prefix s = Some (CHR ''b'') then (2, drop 2 s)
                      else if 3 \<le> length s \<and> base_prefix s = Some (CHR ''o'') then (8, drop 2 s)
                      else if 3 \<le> length s \<and> base_prefix s = Some (CHR ''x'') then (16, drop 2 s)
                      else (8, drop 1 s))
                   else (10, s))
                else (base, s))
         in case uint_digits b base0 (2 ^ bitSize - 1) 0 ds of
              Val n \<Rightarrow> (if base0 \<and> CHR ''_'' \<in> set ds \<and> \<not> underscoreOK s then SyntaxErr else Val n)
            | r \<Rightarrow> r))"

text \<open>
  The first result of \<^verbatim>\<open>strconv.ParseInt(s, base, bitSize)\<close>; the evaluator discards
  the second, the error. It is zero after a syntax error and the nearest bound when
  the number is out of range.
\<close>

definition ParseInt :: "string \<Rightarrow> nat \<Rightarrow> nat \<Rightarrow> int" where
  "ParseInt s base bitSize =
     (case s of
        [] \<Rightarrow> 0
      | c # cs \<Rightarrow>
          (let neg = (c = CHR ''-'');
               s' = (if c = CHR ''+'' \<or> c = CHR ''-'' then cs else s);
               cutoff = (2 :: nat) ^ (bitSize - 1)
           in case ParseUint s' base bitSize of
                SyntaxErr \<Rightarrow> 0
              | r \<Rightarrow>
                  (let un = (case r of Val n \<Rightarrow> n | RangeErr n \<Rightarrow> n | SyntaxErr \<Rightarrow> 0)
                   in if \<not> neg \<and> cutoff \<le> un then int cutoff - 1
                      else if neg \<and> cutoff < un then - int cutoff
                      else if neg then - int un else int un)))"

text \<open>A byte printed by the verb \<^verbatim>\<open>%d\<close>.\<close>

definition digit_char :: "nat \<Rightarrow> char" where
  "digit_char d = ''0123456789'' ! d"

definition byte_decimal :: "nat \<Rightarrow> string" where
  "byte_decimal n =
     (if n < 10 then [digit_char n]
      else if n < 100 then [digit_char (n div 10), digit_char (n mod 10)]
      else [digit_char (n div 100), digit_char (n div 10 mod 10), digit_char (n mod 10)])"

section \<open>The Linux online evaluator (\<^verbatim>\<open>recomputeOnline\<close>)\<close>

text \<open>
  What the evaluator reads of the host. A file is its contents, or \<open>None\<close> when it
  cannot be opened. An address of an interface is the byte slice \<^verbatim>\<open>net.IP\<close>, or
  \<open>None\<close> for \<^verbatim>\<open>nil\<close>; \<open>Addrs\<close> is \<open>None\<close> when \<^verbatim>\<open>ifi.Addrs()\<close> fails.
\<close>

record iface =
  Index :: int
  Name :: string
  FlagUp :: bool
  FlagLoopback :: bool
  Addrs :: "byte list option list option"

text \<open>
  \<open>dns_resolver\<close> is the result of \<^verbatim>\<open>hasDNSResolver()\<close>, whose Linux version is not
  among the sources.
\<close>

record host =
  proc_net_route :: "string option"
  proc_net_ipv6_route :: "string option"
  proc_net_arp :: "string option"
  interfaces :: "iface list"
  operstate :: "string \<Rightarrow> string option"
  carrier :: "string \<Rightarrow> string option"
  dns_resolver :: bool

definition InterfaceByName :: "host \<Rightarrow> string \<Rightarrow> iface option" where
  "InterfaceByName h name = (if name = [] then None else find (\<lambda>i. Name i = name) (interfaces h))"

definition ifIndexToName :: "host \<Rightarrow> int \<Rightarrow> string" where
  "ifIndexToName h idx = (case find (\<lambda>it. Index it = idx) (interfaces h) of None \<Rightarrow> [] | Some it \<Rightarrow> Name it)"

text \<open>The predicates of \<^verbatim>\<open>net.IP\<close> that \<^verbatim>\<open>ifaceHasUsableAddr\<close> calls.\<close>

definition To4 :: "byte list \<Rightarrow> byte list option" where
  "To4 ip =
     (if length ip = 4 then Some ip
      else if length ip = 16 \<and> take 10 ip = replicate 10 0 \<and> ip ! 10 = 0xff \<and> ip ! 11 = 0xff
      then Some (drop 12 ip)
      else None)"

definition IPv6loopback :: "byte list" where
  "IPv6loopback = replicate 15 0 @ [1]"

definition IsLoopback :: "byte list \<Rightarrow> bool" where
  "IsLoopback ip = (case To4 ip of Some ip4 \<Rightarrow> ip4 ! 0 = 127 | None \<Rightarrow> ip = IPv6loopback)"

definition IsUnspecified :: "byte list \<Rightarrow> bool" where
  "IsUnspecified ip \<longleftrightarrow> To4 ip = Some [0, 0, 0, 0] \<or> ip = replicate 16 0"

definition IsLinkLocalUnicast :: "byte list \<Rightarrow> bool" where
  "IsLinkLocalUnicast ip =
     (case To4 ip of
        Some ip4 \<Rightarrow> ip4 ! 0 = 169 \<and> ip4 ! 1 = 254
      | None \<Rightarrow> length ip = 16 \<and> ip ! 0 = 0xfe \<and> (ip ! 1) AND 0xc0 = 0x80)"

text \<open>The loop of \<^verbatim>\<open>ifaceHasUsableAddr\<close> over the addresses.\<close>

fun usable_addr :: "byte list option list \<Rightarrow> bool" where
  "usable_addr [] = False"
| "usable_addr (None # as) = usable_addr as"
| "usable_addr (Some ip # as) =
     (if IsLoopback ip then usable_addr as
      else case To4 ip of
        Some v4 \<Rightarrow> (if \<not> IsUnspecified v4 then True else usable_addr as)
      | None \<Rightarrow> (if IsLinkLocalUnicast ip \<or> IsUnspecified ip then usable_addr as else True))"

definition ifaceHasUsableAddr :: "host \<Rightarrow> string \<Rightarrow> bool" where
  "ifaceHasUsableAddr h ifname =
     (case InterfaceByName h ifname of
        None \<Rightarrow> False
      | Some ifi \<Rightarrow> (case Addrs ifi of None \<Rightarrow> False | Some addrs \<Rightarrow> usable_addr addrs))"

text \<open>
  \<^verbatim>\<open>linuxIfaceUp\<close>, with both of its results; the second is the error.
\<close>

definition linuxIfaceUp :: "host \<Rightarrow> string \<Rightarrow> bool \<times> string option" where
  "linuxIfaceUp h name =
     (if name = [] then (False, None)
      else if (case InterfaceByName h name of
                 Some ifi \<Rightarrow> \<not> FlagUp ifi \<or> FlagLoopback ifi
               | None \<Rightarrow> False)
      then (False, None)
      else if (case operstate h name of
                 Some b \<Rightarrow> TrimSpace b \<noteq> ''up'' \<and> TrimSpace b \<noteq> ''unknown''
               | None \<Rightarrow> False)
      then (False, None)
      else if (case carrier h name of
                 Some b \<Rightarrow> TrimSpace b \<noteq> ''1''
               | None \<Rightarrow> False)
      then (False, None)
      else (True, None))"

text \<open>
  \<^verbatim>\<open>hexToIPv4\<close>: the four bytes of the gateway column, last pair of digits first,
  printed in decimal with dots. \<open>parse_octets\<close> is its loop over the four pairs.
\<close>

fun parse_octets :: "string list \<Rightarrow> nat list option" where
  "parse_octets [] = Some []"
| "parse_octets (h # hs) =
     (case ParseUint h 16 8 of
        Val v \<Rightarrow> (case parse_octets hs of None \<Rightarrow> None | Some vs \<Rightarrow> Some (v # vs))
      | _ \<Rightarrow> None)"

definition hexToIPv4 :: "string \<Rightarrow> string" where
  "hexToIPv4 hexs =
     (if length hexs \<noteq> 8 then []
      else
        (let b0 = take 2 hexs; b1 = take 2 (drop 2 hexs);
             b2 = take 2 (drop 4 hexs); b3 = take 2 (drop 6 hexs)
         in case parse_octets [b3, b2, b1, b0] of
              None \<Rightarrow> []
            | Some octets \<Rightarrow>
                byte_decimal (octets ! 0) @ ''.'' @ byte_decimal (octets ! 1) @ ''.'' @
                byte_decimal (octets ! 2) @ ''.'' @ byte_decimal (octets ! 3)))"

text \<open>
  The loop of \<^verbatim>\<open>linuxDefaultRoute\<close> over the lines of \<^verbatim>\<open>/proc/net/route\<close> after the
  heading: the interface and the gateway of the first line that has eleven fields, the
  destination \<^verbatim>\<open>00000000\<close> and the lowest bit of the flags set.
\<close>

fun route_scan :: "string list \<Rightarrow> (string \<times> string) option" where
  "route_scan [] = None"
| "route_scan (l # ls) =
     (let fields = Fields l
      in if length fields < 11 then route_scan ls
         else if fields ! 1 = ''00000000'' \<and> (ParseInt (fields ! 3) 16 64) AND 1 \<noteq> 0
         then Some (fields ! 0, hexToIPv4 (fields ! 2))
         else route_scan ls)"

text \<open>
  Its loop over the lines of \<^verbatim>\<open>/proc/net/ipv6_route\<close>: the tenth field, read as a
  number in base sixteen, of the first line that has ten fields and whose second field
  is \<^verbatim>\<open>000\<close>.
\<close>

fun ipv6_route_scan :: "string list \<Rightarrow> int option" where
  "ipv6_route_scan [] = None"
| "ipv6_route_scan (l # ls) =
     (let ln = TrimSpace l
      in if ln = [] then ipv6_route_scan ls
         else (let fields = Fields ln
               in if length fields < 10 then ipv6_route_scan ls
                  else if fields ! 1 = ''000'' then Some (ParseInt (fields ! 9) 16 32)
                  else ipv6_route_scan ls))"

text \<open>\<^verbatim>\<open>linuxDefaultRoute\<close>: whether there is a default route, its interface, its gateway, the error.\<close>

definition linuxDefaultRoute :: "host \<Rightarrow> bool \<times> string \<times> string \<times> string option" where
  "linuxDefaultRoute h =
     (case (case proc_net_route h of
              Some f \<Rightarrow> route_scan (drop 1 (ScanLines f))
            | None \<Rightarrow> None) of
        Some (ifname, gw) \<Rightarrow> (True, ifname, gw, None)
      | None \<Rightarrow>
          (case (case proc_net_ipv6_route h of
                   Some d \<Rightarrow> ipv6_route_scan (SplitLines d)
                 | None \<Rightarrow> None) of
             Some ifidx \<Rightarrow> (True, ifIndexToName h ifidx, [], None)
           | None \<Rightarrow> (False, [], [], None)))"

text \<open>
  The loop of \<^verbatim>\<open>arpIsReady\<close> over the lines of \<^verbatim>\<open>/proc/net/arp\<close> after the first.
\<close>

fun arp_scan :: "string \<Rightarrow> string \<Rightarrow> string list \<Rightarrow> bool" where
  "arp_scan gw ifname [] = False"
| "arp_scan gw ifname (l # ls) =
     (let f = Fields (TrimSpace l)
      in if length f < 6 then arp_scan gw ifname ls
         else if f ! 5 \<noteq> ifname \<or> f ! 0 \<noteq> gw then arp_scan gw ifname ls
         else if (ParseInt (f ! 2) 0 64) AND 2 = 0 then False
         else if f ! 3 = ''00:00:00:00:00:00'' then False
         else True)"

text \<open>
  \<^verbatim>\<open>arpIsReady\<close>. \<open>isIPv4 gw\<close> stands for \<^verbatim>\<open>net.ParseIP(gw)\<close> giving an address whose
  \<^verbatim>\<open>To4()\<close> is not \<^verbatim>\<open>nil\<close>.
\<close>

definition arpIsReady :: "(string \<Rightarrow> bool) \<Rightarrow> host \<Rightarrow> string \<Rightarrow> string \<Rightarrow> bool" where
  "arpIsReady isIPv4 h gw ifname =
     (if \<not> isIPv4 gw then True
      else case proc_net_arp h of
        None \<Rightarrow> True
      | Some b \<Rightarrow> arp_scan gw ifname (drop 1 (SplitLines b)))"

text \<open>\<^verbatim>\<open>recomputeOnline\<close> (Linux): online, the cause, the error.\<close>

definition recomputeOnline :: "(string \<Rightarrow> bool) \<Rightarrow> host \<Rightarrow> bool \<times> string \<times> string option" where
  "recomputeOnline isIPv4 h =
     (case linuxDefaultRoute h of
        (hasDef, ifname, gw, err) \<Rightarrow>
          if err \<noteq> None then (False, ''default route check failed'', err)
          else if \<not> hasDef then (False, ''no default route'', None)
          else if ifname = [] then (False, ''default route no iface'', None)
          else (case linuxIfaceUp h ifname of
                  (up, err) \<Rightarrow>
                    if err \<noteq> None then (False, ''iface state check failed'', err)
                    else if \<not> up then (False, ''default iface down'', None)
                    else if \<not> ifaceHasUsableAddr h ifname
                    then (False, ''default iface has no usable IP'', None)
                    else if gw \<noteq> [] \<and> \<not> arpIsReady isIPv4 h gw ifname
                    then (False, ''gateway neighbor not ready'', None)
                    else if \<not> dns_resolver h then (False, ''no DNS resolver'', None)
                    else (True, ''default via '' @ ifname, None)))"

section \<open>The edge detector (\<^verbatim>\<open>Watch\<close>, \<^verbatim>\<open>watch.go\<close>)\<close>

record Event =
  Online :: bool
  ChangedAt :: int
  Cause :: string

text \<open>
  A value sent by \<^verbatim>\<open>Watch\<close>: an error on \<^verbatim>\<open>errc\<close> or an event on \<^verbatim>\<open>out\<close>. The
  sends of a run are kept in one list, in the order in which the code makes them.
\<close>

datatype emission = ErrOut string | EvOut Event

text \<open>The three results of a call of \<^verbatim>\<open>recomputeOnline()\<close>.\<close>

type_synonym evaluation = "bool \<times> string \<times> string option"

text \<open>
  The variables of \<^verbatim>\<open>Watch\<close> and of its goroutine: \<^verbatim>\<open>last\<close>, \<^verbatim>\<open>lastReason\<close>, and
  \<^verbatim>\<open>debounceTimer\<close> as the instant at which the armed timer will fire (\<open>None\<close> when
  no timer is armed); then what has been sent, the instants at which \<^verbatim>\<open>trigger\<close> has
  called \<^verbatim>\<open>recomputeOnline\<close>, and whether the goroutine has returned.
\<close>

record watch_state =
  last_online :: bool
  lastReason :: string
  debounceTimer :: "int option"
  trace :: "emission list"
  evaluations :: "int list"
  stopped :: bool

definition debounce :: Duration where
  "debounce = 750 * Millisecond"

text \<open>
  The start of \<^verbatim>\<open>Watch\<close>, before the goroutine: one evaluation \<open>r\<close>, the error if
  any sent on \<^verbatim>\<open>errc\<close>, \<^verbatim>\<open>last := online\<close>, and the initial event sent on \<^verbatim>\<open>out\<close>.
\<close>

definition Watch_start :: "evaluation \<Rightarrow> int \<Rightarrow> watch_state" where
  "Watch_start r now =
     (case r of (online, why, err) \<Rightarrow>
        \<lparr> last_online = online,
          lastReason = [],
          debounceTimer = None,
          trace = (case err of Some e \<Rightarrow> [ErrOut e] | None \<Rightarrow> []) @
                  [EvOut \<lparr> Online = online, ChangedAt = now, Cause = ''initial: '' @ why \<rparr>],
          evaluations = [],
          stopped = False \<rparr>)"

text \<open>The closure \<^verbatim>\<open>trigger\<close>, run at \<open>now\<close>, \<open>r\<close> being what \<^verbatim>\<open>recomputeOnline\<close> gives then.\<close>

definition trigger :: "evaluation \<Rightarrow> int \<Rightarrow> watch_state \<Rightarrow> watch_state" where
  "trigger r now st0 =
     (case r of (online, why, err) \<Rightarrow>
        (let st = st0\<lparr>evaluations := evaluations st0 @ [now]\<rparr>
         in case err of
              Some e \<Rightarrow> st\<lparr>trace := trace st @ [ErrOut e]\<rparr>
            | None \<Rightarrow>
                if online \<noteq> last_online st
                then st\<lparr>last_online := online,
                        trace := trace st @
                          [EvOut \<lparr> Online = online, ChangedAt = now,
                                   Cause = (if lastReason st \<noteq> [] then lastReason st @ ''; '' @ why
                                            else why) \<rparr>]\<rparr>
                else st))"

text \<open>
  What the \<^verbatim>\<open>select\<close> of the goroutine receives: an event of the OS event source, a
  value of its error channel (\<open>None\<close> for \<^verbatim>\<open>nil\<close>), the cancellation of the context.
\<close>

datatype watch_input = OSEvent string | SrcError "string option" | CtxDone

text \<open>
  Time passes until \<open>t\<close>: a timer armed for an instant up to \<open>t\<close> fires, at that
  instant, and runs \<^verbatim>\<open>trigger\<close>. \<open>ev d\<close> is what \<^verbatim>\<open>recomputeOnline\<close> gives when called
  at the instant \<open>d\<close>. A timer that has fired does nothing more, and stopping it has
  no effect, so it is no longer kept. The call of \<^verbatim>\<open>trigger\<close> is taken as a whole, at
  the instant of the firing.
\<close>

definition fire_due :: "(int \<Rightarrow> evaluation) \<Rightarrow> int \<Rightarrow> watch_state \<Rightarrow> watch_state" where
  "fire_due ev t st =
     (case debounceTimer st of
        None \<Rightarrow> st
      | Some d \<Rightarrow> if d \<le> t \<and> \<not> stopped st then trigger (ev d) d (st\<lparr>debounceTimer := None\<rparr>) else st)"

text \<open>
  One turn of the loop of the goroutine, for the input that arrives at the instant \<open>t\<close>.
  \<^verbatim>\<open>time.AfterFunc(750*time.Millisecond, trigger)\<close> arms the timer for \<open>t + debounce\<close>;
  the timer armed before is stopped, that is forgotten.
\<close>

definition watch_step :: "(int \<Rightarrow> evaluation) \<Rightarrow> watch_state \<Rightarrow> int \<times> watch_input \<Rightarrow> watch_state" where
  "watch_step ev st0 inp =
     (let t = fst inp; st = fire_due ev t st0
      in if stopped st then st
         else case snd inp of
           OSEvent r \<Rightarrow> st\<lparr>lastReason := r, debounceTimer := Some (t + debounce)\<rparr>
         | SrcError None \<Rightarrow> st
         | SrcError (Some e) \<Rightarrow> st\<lparr>trace := trace st @ [ErrOut e]\<rparr>
         | CtxDone \<Rightarrow> st\<lparr>debounceTimer := None, stopped := True\<rparr>)"

text \<open>
  A run of \<^verbatim>\<open>Watch\<close> started at \<open>t0\<close>: the inputs with their instants, in the order of
  their arrival, and then nothing more until the instant \<open>T\<close>.
\<close>

definition Watch :: "(int \<Rightarrow> evaluation) \<Rightarrow> int \<Rightarrow> (int \<times> watch_input) list \<Rightarrow> int \<Rightarrow> watch_state" where
  "Watch ev t0 inps T = fire_due ev T (foldl (watch_step ev) (Watch_start (ev t0) t0) inps)"

text \<open>The stream of change events: the events among what has been sent.\<close>

fun events_of :: "emission list \<Rightarrow> Event list" where
  "events_of [] = []"
| "events_of (EvOut e # xs) = e # events_of xs"
| "events_of (ErrOut e # xs) = events_of xs"

text \<open>
  A sequence of instants in which each is not before the one before it and comes less
  than \<open>d\<close> after it.
\<close>

fun spaced_below :: "Duration \<Rightarrow> int list \<Rightarrow> bool" where
  "spaced_below d [] = True"
| "spaced_below d [t] = True"
| "spaced_below d (t # u # ts) = (t \<le> u \<and> u - t < d \<and> spaced_below d (u # ts))"

section \<open>Particular inputs\<close>

text \<open>
  A message of netlink is within the bytes \<open>b\<close> when its header is read at an offset of
  \<open>b\<close>, its length covers the header and stays inside \<open>b\<close>, and its body is the bytes that
  follow the header up to that length.
\<close>

definition msg_within :: "byte list \<Rightarrow> nlmsg \<Rightarrow> bool" where
  "msg_within b m \<longleftrightarrow>
     (\<exists>off. hdrLen \<le> unat (Len (Header m)) \<and> off + unat (Len (Header m)) \<le> length b \<and>
        readHeader (drop off b) = Some (Header m) \<and>
        Body m = take (unat (Len (Header m)) - hdrLen) (drop (off + hdrLen) b))"

text \<open>
  A slice of \<open>2 ^ 32 + 16\<close> bytes that starts with a header whose length field is
  \<open>2 ^ 32 - 1\<close>, and sixteen bytes with a header whose length field is \<open>2 ^ 31\<close>.
\<close>

definition bad64 :: "byte list" where
  "bad64 = [255, 255, 255, 255, 24, 0, 0, 0, 1, 0, 0, 0, 0, 0, 0, 0] @ replicate (2 ^ 32) 0"

definition bad32 :: "byte list" where
  "bad32 = [0, 0, 0, 128, 24, 0, 0, 0, 1, 0, 0, 0, 0, 0, 0, 0]"

text \<open>A message of sixteen bytes, the header alone, of type \<open>t\<close>.\<close>

definition msg16 :: "byte \<Rightarrow> byte list" where
  "msg16 t = [16, 0, 0, 0, t, 0, 0, 0, 1, 0, 0, 0, 0, 0, 0, 0]"

text \<open>
  Hosts. \<open>host_online\<close> is the first scenario of the specification: a default route
  through \<^verbatim>\<open>eth0\<close> and the gateway 10.1.1.1, whose neighbour entry is complete.
  \<open>host_ipv6_only\<close> has no IPv4 route and the IPv6 default route \<^verbatim>\<open>::/0\<close> as the kernel
  prints it in \<^verbatim>\<open>/proc/net/ipv6_route\<close>: destination, prefix length in two digits,
  source, its prefix length, next hop, metric, reference count, use count, flags, device.
  \<open>host_unreadable\<close> is \<open>host_online\<close> with neither routing table readable.
\<close>

definition route_heading :: string where
  "route_heading = ''Iface Destination Gateway Flags RefCnt Use Metric Mask MTU Window IRTT''"

definition arp_heading :: string where
  "arp_heading = ''IP address HW type Flags HW address Mask Device''"

definition eth0 :: iface where
  "eth0 = \<lparr> Index = 2, Name = ''eth0'', FlagUp = True, FlagLoopback = False,
            Addrs = Some [Some [192, 168, 1, 42]] \<rparr>"

definition eth0_v6 :: iface where
  "eth0_v6 = \<lparr> Index = 2, Name = ''eth0'', FlagUp = True, FlagLoopback = False,
               Addrs = Some [Some [0x20, 0x01, 0x0d, 0xb8, 0, 0, 0, 0, 0, 0, 0, 0, 0, 0, 0, 1]] \<rparr>"

definition host_online :: host where
  "host_online =
     \<lparr> proc_net_route = Some (route_heading @ [CHR 0x0A] @
          ''eth0 00000000 0101010A 0003 0 0 100 00000000 0 0 0'' @ [CHR 0x0A]),
       proc_net_ipv6_route = Some [],
       proc_net_arp = Some (arp_heading @ [CHR 0x0A] @
          ''10.1.1.1 0x1 0x2 aa:bb:cc:dd:ee:ff * eth0'' @ [CHR 0x0A]),
       interfaces = [eth0],
       operstate = (\<lambda>n. if n = ''eth0'' then Some (''up'' @ [CHR 0x0A]) else None),
       carrier = (\<lambda>n. if n = ''eth0'' then Some (''1'' @ [CHR 0x0A]) else None),
       dns_resolver = True \<rparr>"

definition host_ipv6_only :: host where
  "host_ipv6_only =
     \<lparr> proc_net_route = Some (route_heading @ [CHR 0x0A]),
       proc_net_ipv6_route = Some
         (''00000000000000000000000000000000 00 00000000000000000000000000000000 00 fe800000000000000000000000000001 00000400 00000001 00000000 00000003 eth0'' @ [CHR 0x0A]),
       proc_net_arp = Some (arp_heading @ [CHR 0x0A]),
       interfaces = [eth0_v6],
       operstate = (\<lambda>n. if n = ''eth0'' then Some (''up'' @ [CHR 0x0A]) else None),
       carrier = (\<lambda>n. if n = ''eth0'' then Some (''1'' @ [CHR 0x0A]) else None),
       dns_resolver = True \<rparr>"

definition host_unreadable :: host where
  "host_unreadable = host_online \<lparr> proc_net_route := None, proc_net_ipv6_route := None \<rparr>"

text \<open>A recogniser of the dotted IPv4 addresses that occur in these hosts.\<close>

definition dotted_quad :: "string \<Rightarrow> bool" where
  "dotted_quad s \<longleftrightarrow> length (filter (\<lambda>c. c = CHR ''.'') s) = 3 \<and> CHR '':'' \<notin> set s"

section \<open>Reference descriptions\<close>

text \<open>
  Descriptions of the expected behaviour, written from the sentences of the
  specification and not from the code; the properties below compare the code with them.
\<close>

text \<open>
  The wake-gap watcher. For the threshold \<open>thr\<close>, the instant \<open>prev\<close> of the tick before
  and \<open>n\<close> signals waiting in the channel: a tick that comes at least \<open>thr\<close> after \<open>prev\<close>
  gives a signal, which is kept when the channel is empty and dropped otherwise; any
  other tick gives nothing. Nothing happens after the cancellation.
\<close>

fun wake_outcomes :: "Duration \<Rightarrow> int \<Rightarrow> nat \<Rightarrow> wake_input list \<Rightarrow> wake_outcome list" where
  "wake_outcomes thr prev n [] = []"
| "wake_outcomes thr prev n (Tick now # ins) =
     (if thr \<le> Sub now prev
      then (if n = 0 then Sent # wake_outcomes thr now 1 ins
            else Dropped # wake_outcomes thr now n ins)
      else Quiet # wake_outcomes thr now n ins)"
| "wake_outcomes thr prev n (Done # ins) = []"
| "wake_outcomes thr prev n (Receive # ins) = wake_outcomes thr prev (n - 1) ins"

text \<open>The number of signals waiting in the channel after these inputs.\<close>

fun wake_waiting :: "Duration \<Rightarrow> int \<Rightarrow> nat \<Rightarrow> wake_input list \<Rightarrow> nat" where
  "wake_waiting thr prev n [] = n"
| "wake_waiting thr prev n (Tick now # ins) =
     (if thr \<le> Sub now prev \<and> n = 0 then wake_waiting thr now 1 ins
      else wake_waiting thr now n ins)"
| "wake_waiting thr prev n (Done # ins) = fold (\<lambda>i k. if i = Receive then k - 1 else k) ins n"
| "wake_waiting thr prev n (Receive # ins) = wake_waiting thr prev (n - 1) ins"

text \<open>
  A gap threshold that the demo accepts as \<^verbatim>\<open>-wake-gap 2562047h47m16s\<close>: with the
  default sample of one second the sum of the two exceeds the largest duration.
\<close>

definition long_gap :: Duration where
  "long_gap = 9223372036000000000"

text \<open>
  The trailing-edge debounce. \<open>due pend rs t\<close> is the firing, if any, of a timer pending
  for the instant \<open>pend\<close> when time reaches \<open>t\<close>, with the reason remembered then.
  \<open>firings rs pend inps T\<close> lists the firings, each with its instant and the reason
  remembered, while the inputs \<open>inps\<close> arrive and then until \<open>T\<close>: every OS event
  replaces the pending timer by one for 750 ms later, and the cancellation ends all.
\<close>

definition due :: "int option \<Rightarrow> string \<Rightarrow> int \<Rightarrow> (int \<times> string) list" where
  "due pend rs t = (case pend of Some d \<Rightarrow> if d \<le> t then [(d, rs)] else [] | None \<Rightarrow> [])"

definition still_pending :: "int option \<Rightarrow> int \<Rightarrow> int option" where
  "still_pending pend t = (case pend of Some d \<Rightarrow> if d \<le> t then None else Some d | None \<Rightarrow> None)"

fun firings :: "string \<Rightarrow> int option \<Rightarrow> (int \<times> watch_input) list \<Rightarrow> int \<Rightarrow> (int \<times> string) list" where
  "firings rs pend [] T = due pend rs T"
| "firings rs pend ((t, OSEvent r) # inps) T = due pend rs t @ firings r (Some (t + debounce)) inps T"
| "firings rs pend ((t, SrcError e) # inps) T = due pend rs t @ firings rs (still_pending pend t) inps T"
| "firings rs pend ((t, CtxDone) # inps) T = due pend rs t"

text \<open>
  The edges. \<open>l\<close> is the value of the event emitted last. A firing whose evaluation
  succeeds with another value gives an event with that value, which becomes the value
  emitted last; any other firing gives nothing.
\<close>

fun edges :: "(int \<Rightarrow> evaluation) \<Rightarrow> bool \<Rightarrow> (int \<times> string) list \<Rightarrow> Event list" where
  "edges ev l [] = []"
| "edges ev l ((d, rs) # fs) =
     (case ev d of (online, why, err) \<Rightarrow>
        if err = None \<and> online \<noteq> l
        then \<lparr> Online = online, ChangedAt = d,
               Cause = (if rs \<noteq> [] then rs @ ''; '' @ why else why) \<rparr> # edges ev online fs
        else edges ev l fs)"

text \<open>The value emitted last after these firings.\<close>

fun last_after :: "(int \<Rightarrow> evaluation) \<Rightarrow> bool \<Rightarrow> (int \<times> string) list \<Rightarrow> bool" where
  "last_after ev l [] = l"
| "last_after ev l ((d, rs) # fs) =
     (case ev d of (online, why, err) \<Rightarrow>
        if err = None \<and> online \<noteq> l then last_after ev online fs else last_after ev l fs)"

text \<open>The initial event for the evaluation \<open>r\<close> made at \<open>t0\<close>.\<close>

definition initial_event :: "evaluation \<Rightarrow> int \<Rightarrow> Event" where
  "initial_event r t0 = \<lparr> Online = fst r, ChangedAt = t0, Cause = ''initial: '' @ fst (snd r) \<rparr>"




chapter \<open>Properties\<close>

section \<open>The wake-gap watcher\<close>

lemma wake_tick_threshold [simp]: "wake_threshold (snd (wake_tick now w)) = wake_threshold w"
  by (simp add: wake_tick_def wake_threshold_def Let_def)

lemma wake_tick_returned [simp]: "returned (snd (wake_tick now w)) = returned w"
  by (simp add: wake_tick_def Let_def)

lemma wake_tick_last [simp]: "last_tick (snd (wake_tick now w)) = now"
  by (simp add: wake_tick_def Let_def)

lemma wake_tick_result:
  "fst (wake_tick now w) =
     (if wake_threshold w \<le> Sub now (last_tick w)
      then (if out_len w = 0 then Sent else Dropped) else Quiet)"
  by (simp add: wake_tick_def Let_def)

lemma wake_tick_channel:
  "out_len (snd (wake_tick now w)) =
     (if wake_threshold w \<le> Sub now (last_tick w) \<and> out_len w = 0 then 1 else out_len w)"
  by (simp add: wake_tick_def Let_def)

lemma wake_run_returned: "returned w \<Longrightarrow> fst (wake_run w ins) = []"
proof (induction ins arbitrary: w)
  case (Cons a ins)
  then show ?case by (cases a) simp_all
qed simp

lemma wake_run_returned_channel:
  "returned w \<Longrightarrow>
   out_len (snd (wake_run w ins)) = fold (\<lambda>i k. if i = Receive then k - 1 else k) ins (out_len w)"
proof (induction ins arbitrary: w)
  case (Cons a ins)
  then show ?case by (cases a) simp_all
qed simp

text \<open>
  The loop does what the reference description says, for the threshold that the code
  computes: the same outcome at every tick and the same number of signals waiting in
  the channel at the end.
\<close>

lemma wake_run_outcomes:
  "\<not> returned w \<Longrightarrow>
   fst (wake_run w ins) = wake_outcomes (wake_threshold w) (last_tick w) (out_len w) ins \<and>
   out_len (snd (wake_run w ins)) = wake_waiting (wake_threshold w) (last_tick w) (out_len w) ins"
proof (induction ins arbitrary: w)
  case Nil
  then show ?case by simp
next
  case (Cons a ins)
  show ?case
  proof (cases a)
    case (Tick now)
    have "\<not> returned (snd (wake_tick now w))" using Cons.prems by simp
    from Cons.IH [OF this] show ?thesis
      using Cons.prems Tick
      by (simp add: split_beta wake_tick_result wake_tick_channel)
  next
    case Done
    then show ?thesis by (simp add: wake_run_returned wake_run_returned_channel)
  next
    case Receive
    have "\<not> returned (w\<lparr>out_len := out_len w - 1\<rparr>)" using Cons.prems by simp
    from Cons.IH [OF this] show ?thesis
      using Receive by (simp add: wake_threshold_def)
  qed
qed

lemma wrap64_exact: "minDuration \<le> x \<Longrightarrow> x \<le> maxDuration \<Longrightarrow> wrap64 x = x"
  by (simp add: wrap64_def minDuration_def maxDuration_def)

text \<open>
  As long as the sum of the two periods, after defaulting, does not exceed the largest
  duration, the watcher signals exactly as described for the threshold
  \<open>sample + gap\<close>.
\<close>

lemma wake_run_exact_sum:
  assumes "(if s \<le> 0 then Second else s) + (if g \<le> 0 then 1500 * Millisecond else g) \<le> maxDuration"
  shows "fst (wake_run (StartWakeGapWatcher s g t0) ins) =
           wake_outcomes ((if s \<le> 0 then Second else s) + (if g \<le> 0 then 1500 * Millisecond else g))
             t0 0 ins"
proof -
  let ?w = "StartWakeGapWatcher s g t0"
  have nr: "\<not> returned ?w" by (simp add: StartWakeGapWatcher_def)
  have "minDuration \<le> (if s \<le> 0 then Second else s) + (if g \<le> 0 then 1500 * Millisecond else g)"
    by (simp add: minDuration_def Second_def Millisecond_def)
  then have "wake_threshold ?w =
      (if s \<le> 0 then Second else s) + (if g \<le> 0 then 1500 * Millisecond else g)"
    using assms by (simp add: wake_threshold_def StartWakeGapWatcher_def wrap64_exact)
  then show ?thesis
    using wake_run_outcomes [OF nr, of ins] by (simp add: StartWakeGapWatcher_def)
qed

text \<open>
  Claim C9 (the code departs from it). The watcher is to signal if and only if a tick
  comes at least \<open>sample + gap\<close> after the tick before it. Started with the default
  sample of one second and the gap threshold \<open>long_gap\<close>, the code adds the two in
  \<^verbatim>\<open>int64\<close>; the sum wraps around to a negative duration, and every tick sends a
  signal: of three ticks one second apart the first is kept in the channel and the
  other two are dropped. The description for the exact sum gives no signal at any of
  them.
\<close>

theorem wake_gap_threshold_overflow:
  "sample (StartWakeGapWatcher 0 long_gap 0) + gapThreshold (StartWakeGapWatcher 0 long_gap 0)
     = 9223372037000000000 \<and>
   maxDuration < sample (StartWakeGapWatcher 0 long_gap 0) + gapThreshold (StartWakeGapWatcher 0 long_gap 0) \<and>
   wake_threshold (StartWakeGapWatcher 0 long_gap 0) = - 9223372036709551616 \<and>
   wake_run (StartWakeGapWatcher 0 long_gap 0) [Tick 1000000000, Tick 2000000000, Tick 3000000000]
     = ([Sent, Dropped, Dropped],
        \<lparr> sample = 1000000000, gapThreshold = long_gap, last_tick = 3000000000,
          out_len = 1, returned = False \<rparr>) \<and>
   wake_outcomes 9223372037000000000 0 0 [Tick 1000000000, Tick 2000000000, Tick 3000000000]
     = [Quiet, Quiet, Quiet]"
  by (simp add: StartWakeGapWatcher_def long_gap_def Second_def Millisecond_def maxDuration_def
      minDuration_def wake_threshold_def wrap64_def wake_tick_def Sub_def Let_def)

section \<open>The netlink parser\<close>

lemma and_not_split: fixes z :: "'a::len word"
  shows "(z AND NOT m) + (z AND m) = z"
proof -
  have "(z AND NOT m) + (z AND m) = (z AND NOT m) OR (z AND m)"
    by (rule disjunctive_add) (simp add: bit_simps)
  also have "\<dots> = z"
    by (rule bit_eqI) (auto simp: bit_simps)
  finally show ?thesis .
qed

lemma align_ge: fixes x :: "32 word" assumes "unat x < 2^32 - 3"
  shows "unat x \<le> unat ((x + 3) AND NOT 3)"
proof -
  let ?z = "x + 3"
  have z: "unat ?z = unat x + 3"
    using assms by (simp add: unat_word_ariths)
  have le3: "unat (?z AND 3) \<le> 3"
    using word_and_le1 [of ?z 3] by (simp add: word_le_nat_alt)
  have "unat ((?z AND NOT 3) + (?z AND 3)) = unat (?z AND NOT 3) + unat (?z AND 3)"
    by (metis and_not_split unat_plus_simple word_and_le2)
  then have "unat ?z = unat (?z AND NOT 3) + unat (?z AND 3)"
    by (metis and_not_split)
  then show ?thesis using z le3 by linarith
qed

lemma to_int_64: "to_int 64 x = int (unat x)"
proof -
  have "uint x < 2 ^ 32" using uint_bounded [of x] by simp
  then have "uint x < 2 ^ 63" by simp
  moreover have "0 \<le> uint x" by simp
  ultimately show ?thesis by (simp add: to_int_def Let_def)
qed

lemma slice_from_nat: "n \<le> length b \<Longrightarrow> slice_from b (int n) = Some (drop n b)"
  by (simp add: slice_from_def)

lemma parseNlMsgs_loop_total:
  assumes "length b0 < 2 ^ 32 - 3" "off \<le> length b0" "\<forall>m\<in>set out. msg_within b0 m"
  shows "\<exists>msgs err. parseNlMsgs_loop 64 (drop off b0) out = Some (Returned msgs err) \<and>
           (\<forall>m\<in>set msgs. msg_within b0 m) \<and>
           hdrLen * (length msgs - length out) \<le> length b0 - off"
  using assms
proof (induction "length b0 - off" arbitrary: off out rule: less_induct)
  case less
  let ?b = "drop off b0"
  show ?case
  proof (cases "hdrLen \<le> length ?b")
    case False
    then show ?thesis using less.prems by (subst parseNlMsgs_loop.simps) simp
  next
    case long: True
    then obtain h where h: "readHeader ?b = Some h"
      by (simp add: readHeader_def)
    show ?thesis
    proof (cases "Len h < word_of_nat hdrLen \<or> int (length ?b) < to_int 64 (Len h)")
      case True
      then show ?thesis using less.prems long h
        by (subst parseNlMsgs_loop.simps) simp
    next
      case ok: False
      let ?L = "unat (Len h)"
      have L16: "hdrLen \<le> ?L"
        using ok by (simp add: hdrLen_def word_less_nat_alt not_less word_le_nat_alt)
      have "\<not> int (length ?b) < int ?L"
        using ok unfolding to_int_64 by blast
      then have Llen: "?L \<le> length ?b"
        by linarith
      let ?body = "take (?L - hdrLen) (drop hdrLen ?b)"
      have sl: "slice_between ?b hdrLen ?L = Some ?body"
        using L16 Llen by (simp add: slice_between_def)
      let ?m = "\<lparr> Header = h, Body = ?body \<rparr>"
      let ?out' = "out @ [?m]"
      let ?adv = "unat ((Len h + 3) AND NOT 3)"
      have small: "?L < 2 ^ 32 - 3" using Llen less.prems(1) by simp
      have adv_ge: "?L \<le> ?adv" using align_ge [OF small] .
      have mw: "msg_within b0 ?m"
        unfolding msg_within_def
        using L16 Llen h less.prems(2)
        by (intro exI [of _ off]) (simp add: add.commute)
      then have out': "\<forall>m\<in>set ?out'. msg_within b0 m" using less.prems(3) by simp
      show ?thesis
      proof (cases "int (length ?b) < int ?adv")
        case True
        have "parseNlMsgs_loop 64 ?b out = Some (Returned ?out' None)"
          using long h ok sl True
          by (subst parseNlMsgs_loop.simps) (simp add: to_int_64 Let_def)
        then show ?thesis using out' L16 Llen by simp
      next
        case False
        then have advlen: "?adv \<le> length ?b" by linarith
        have sf: "slice_from ?b (int ?adv) = Some (drop (off + ?adv) b0)"
          using slice_from_nat [OF advlen] by (simp add: add.commute)
        have step: "parseNlMsgs_loop 64 ?b out = parseNlMsgs_loop 64 (drop (off + ?adv) b0) ?out'"
          using long h ok sl False sf
          by (subst parseNlMsgs_loop.simps) (simp add: to_int_64 Let_def)
        have pos: "0 < ?adv" using adv_ge L16 by (simp add: hdrLen_def)
        have dec: "length b0 - (off + ?adv) < length b0 - off"
          using pos advlen long by (simp add: hdrLen_def)
        have le: "off + ?adv \<le> length b0" using advlen less.prems(2) by simp
        from less.hyps [OF dec less.prems(1) le out']
        obtain msgs err where r: "parseNlMsgs_loop 64 (drop (off + ?adv) b0) ?out' = Some (Returned msgs err)"
          "\<forall>m\<in>set msgs. msg_within b0 m"
          "hdrLen * (length msgs - length ?out') \<le> length b0 - (off + ?adv)"
          by blast
        have "hdrLen * (length msgs - length out) \<le> hdrLen * (length msgs - length ?out') + hdrLen"
          by (simp add: hdrLen_def)
        also have "\<dots> \<le> (length b0 - (off + ?adv)) + ?adv"
          using r(3) adv_ge L16 by linarith
        also have "\<dots> = length b0 - off" using le by simp
        finally show ?thesis using step r(1,2) by simp
      qed
    qed
  qed
qed

lemma bad64_length: "length bad64 = 2 ^ 32 + 16"
  by (simp add: bad64_def)

lemma bad64_header: "readHeader bad64 = Some \<lparr> Len = 0xFFFFFFFF, Type = 24, Flags = 0, Seq = 1, Pid = 0 \<rparr>"
  unfolding readHeader_def bad64_length
  by (simp add: hdrLen_def bad64_def le32_def le16_def nth_append)

lemma bad64_step: "parseNlMsgs_loop 64 bad64 out =
    parseNlMsgs_loop 64 bad64 (out @ [\<lparr> Header = \<lparr> Len = 0xFFFFFFFF, Type = 24, Flags = 0, Seq = 1, Pid = 0 \<rparr>,
       Body = take (2 ^ 32 - 17) (drop 16 bad64) \<rparr>])"
  apply (subst parseNlMsgs_loop.simps)
  apply (simp add: bad64_header bad64_length hdrLen_def to_int_def slice_between_def slice_from_def Let_def)
  done

lemma bad64_never_returns:
  "parseNlMsgs_loop i b out = Some y \<Longrightarrow> \<not> (i = 64 \<and> b = bad64)"
proof (rule parseNlMsgs_loop.raw_induct [where P = "\<lambda>i b out y. \<not> (i = 64 \<and> b = bad64)"])
  fix f :: "nat \<Rightarrow> byte list \<Rightarrow> nlmsg list \<Rightarrow> parse_result option"
    and intSize b out y
  assume IH: "\<And>i b out y. f i b out = Some y \<Longrightarrow> \<not> (i = 64 \<and> b = bad64)"
    and body: "(if hdrLen \<le> length b then
        (case readHeader b of
           None \<Rightarrow> Some Panicked
         | Some h \<Rightarrow>
             if Len h < word_of_nat hdrLen \<or> int (length b) < to_int intSize (Len h)
             then Some (Returned out (Some ''invalid nlmsg len''))
             else (case slice_between b hdrLen (unat (Len h)) of
                     None \<Rightarrow> Some Panicked
                   | Some body \<Rightarrow>
                       (let out' = out @ [\<lparr> Header = h, Body = body \<rparr>];
                            adv = to_int intSize ((Len h + 3) AND NOT 3)
                        in if int (length b) < adv then Some (Returned out' None)
                           else (case slice_from b adv of
                                   None \<Rightarrow> Some Panicked
                                 | Some b' \<Rightarrow> f intSize b' out'))))
      else Some (Returned out None)) = Some y"
  show "\<not> (intSize = 64 \<and> b = bad64)"
  proof
    assume e: "intSize = 64 \<and> b = bad64"
    have "f 64 bad64 (out @ [\<lparr> Header = \<lparr> Len = 0xFFFFFFFF, Type = 24, Flags = 0, Seq = 1, Pid = 0 \<rparr>,
       Body = take (2 ^ 32 - 17) (drop 16 bad64) \<rparr>]) = Some y"
      using body e
      by (simp add: bad64_header bad64_length hdrLen_def to_int_def slice_between_def slice_from_def Let_def)
    from IH [OF this] show False by simp
  qed
qed

lemma bad64_diverges: "parseNlMsgs_loop 64 bad64 out = None"
  using bad64_never_returns [of 64 bad64 out] by (cases "parseNlMsgs_loop 64 bad64 out") auto

text \<open>
  On a platform whose \<^verbatim>\<open>int\<close> has 64 bits, the parser returns for every input of less
  than \<open>2 ^ 32 - 3\<close> bytes, which covers every datagram read into the buffer of 64 KiB:
  it does not panic, every message it returns is within the input, and the messages
  take at least sixteen bytes each.
\<close>

lemma parseNlMsgs_total_in_bounds:
  assumes "length b < 2 ^ 32 - 3"
  shows "\<exists>msgs err. parseNlMsgs 64 b = Some (Returned msgs err) \<and>
           (\<forall>m\<in>set msgs. msg_within b m) \<and> hdrLen * length msgs \<le> length b"
  using parseNlMsgs_loop_total [OF assms, of 0 "[]"] by (simp add: parseNlMsgs_def)

text \<open>
  Claim C10 (the code departs from it). The parser is to return, with every slice in
  bounds, on every input. Where \<^verbatim>\<open>int\<close> has 32 bits, the sixteen bytes \<open>bad32\<close> pass the
  test \<^verbatim>\<open>int(h.Len) > len(b)\<close>, the length \<open>2 ^ 31\<close> being negative as an \<^verbatim>\<open>int\<close>, and
  the slice expression \<^verbatim>\<open>b[hdrLen:h.Len]\<close> panics. Where it has 64 bits, on the input
  \<open>bad64\<close> the sum \<^verbatim>\<open>h.Len + 3\<close> wraps around in \<^verbatim>\<open>uint32\<close>, the advance is zero, the
  loop goes on with the same bytes, and the call never returns.
\<close>

theorem parseNlMsgs_panics_or_loops:
  "length bad32 = 16 \<and>
   readHeader bad32 = Some \<lparr> Len = 0x80000000, Type = 24, Flags = 0, Seq = 1, Pid = 0 \<rparr> \<and>
   to_int 32 0x80000000 = - 2147483648 \<and>
   parseNlMsgs 32 bad32 = Some Panicked \<and>
   length bad64 = 2 ^ 32 + 16 \<and>
   readHeader bad64 = Some \<lparr> Len = 0xFFFFFFFF, Type = 24, Flags = 0, Seq = 1, Pid = 0 \<rparr> \<and>
   to_int 64 ((0xFFFFFFFF + 3) AND NOT 3) = 0 \<and>
   parseNlMsgs 64 bad64 = None"
proof -
  have a: "parseNlMsgs 32 bad32 = Some Panicked"
    by (simp add: parseNlMsgs_def parseNlMsgs_loop.simps bad32_def hdrLen_def readHeader_def
        le32_def le16_def to_int_def slice_between_def)
  have b: "readHeader bad32 = Some \<lparr> Len = 0x80000000, Type = 24, Flags = 0, Seq = 1, Pid = 0 \<rparr>"
    by (simp add: bad32_def hdrLen_def readHeader_def le32_def le16_def)
  have c: "to_int 32 0x80000000 = - 2147483648" "to_int 64 ((0xFFFFFFFF + 3) AND NOT 3) = 0"
    by (simp_all add: to_int_def)
  show ?thesis
    using a b c bad64_length bad64_header bad64_diverges [of "[]"]
    by (simp add: parseNlMsgs_def bad32_def)
qed

section \<open>The OS event sources\<close>

lemmas parse_eval = parseNlMsgs_def parseNlMsgs_loop.simps hdrLen_def readHeader_def le32_def
  le16_def to_int_def slice_between_def slice_from_def msg16_def

lemmas reader_eval = linux_reader_def bsd_reader_def linux_iteration_def bsd_iteration_def
  EINTR_def chan_send_def chan_try_send_def errc_capacity_def out_capacity_def reason_of_type_def
  RTM_NEWLINK_def RTM_DELLINK_def RTM_NEWADDR_def RTM_DELADDR_def RTM_NEWROUTE_def RTM_DELROUTE_def

text \<open>The Linux reader goes back to the read after \<^verbatim>\<open>EINTR\<close> and sends nothing.\<close>

lemma linux_iteration_EINTR: "linux_iteration n st (False, ReadErr EINTR) = Continue st"
  by (simp add: linux_iteration_def)

text \<open>Any other failure of the read is sent on the error channel, and the reader returns.\<close>

lemma linux_iteration_fatal:
  "e \<noteq> EINTR \<Longrightarrow> errc_buf st = [] \<Longrightarrow>
   linux_iteration n st (False, ReadErr e) = Return (st\<lparr>errc_buf := [NetlinkRecv e]\<rparr>)"
  by (simp add: linux_iteration_def chan_send_def errc_capacity_def)

text \<open>The BSD and macOS reader does so after every failure of the read.\<close>

lemma bsd_iteration_error:
  "errc_buf st = [] \<Longrightarrow>
   bsd_iteration parseRIB st (False, ReadErr e) = Return (st\<lparr>errc_buf := [RouteRecv e]\<rparr>)"
  by (simp add: bsd_iteration_def chan_send_def errc_capacity_def)

text \<open>
  Claim C7 (the code departs from it). A read that fails with \<^verbatim>\<open>EINTR\<close> is to be
  retried, on Linux and on BSD and macOS alike. The reader of BSD and macOS has no test
  for \<^verbatim>\<open>EINTR\<close>: when the first read is interrupted it sends the error and returns, so
  that both channels are closed and the bytes of the next read are never looked at. The
  Linux reader, given the same, goes on and reports the route change of the second
  read.
\<close>

theorem bsd_reader_EINTR_is_fatal:
  "bsd_reader parseRIB \<lparr> out_buf = [], errc_buf = [] \<rparr>
     [(False, ReadErr EINTR), (False, ReadOK bytes)]
     = Return \<lparr> out_buf = [], errc_buf = [RouteRecv EINTR] \<rparr> \<and>
   linux_reader 64 \<lparr> out_buf = [], errc_buf = [] \<rparr>
     [(False, ReadErr EINTR), (False, ReadOK (msg16 24))]
     = Continue \<lparr> out_buf = [\<lparr> reason = ''route change'' \<rparr>], errc_buf = [] \<rparr>"
  by (simp add: reader_eval parse_eval)

text \<open>
  Claim C6 (the code departs from it). An event produced while the buffer of eight is
  full is to be dropped, and the reader is not to block, on every platform. The
  Windows callback does drop it. The readers of Linux and of BSD and macOS send with
  \<^verbatim>\<open>out <- osEvent{...}\<close>, which blocks: with eight events waiting, the next message
  leaves the reader blocked in the send, and one datagram of nine route messages read
  while the buffer is empty leaves it blocked at the ninth.
\<close>

theorem readers_block_on_full_buffer:
  "length (replicate 8 \<lparr> reason = ''link change'' \<rparr>) = out_capacity \<and>
   linux_iteration 64 \<lparr> out_buf = replicate 8 \<lparr> reason = ''link change'' \<rparr>, errc_buf = [] \<rparr>
     (False, ReadOK (msg16 24))
     = Blocked \<lparr> out_buf = replicate 8 \<lparr> reason = ''link change'' \<rparr>, errc_buf = [] \<rparr> \<and>
   bsd_iteration parseRIB \<lparr> out_buf = replicate 8 \<lparr> reason = ''net change'' \<rparr>, errc_buf = [] \<rparr>
     (False, ReadOK bytes)
     = Blocked \<lparr> out_buf = replicate 8 \<lparr> reason = ''net change'' \<rparr>, errc_buf = [] \<rparr> \<and>
   linux_iteration 64 \<lparr> out_buf = [], errc_buf = [] \<rparr>
     (False, ReadOK (concat (replicate 9 (msg16 24))))
     = Blocked \<lparr> out_buf = replicate 8 \<lparr> reason = ''route change'' \<rparr>, errc_buf = [] \<rparr> \<and>
   win_send False (replicate 8 \<lparr> reason = ''route change'' \<rparr>) ''ip interface change''
     = replicate 8 \<lparr> reason = ''route change'' \<rparr>"
proof -
  have r8: "replicate 8 x = [x, x, x, x, x, x, x, x]" for x :: osEvent
    by (simp add: numeral_eq_Suc)
  have r9: "replicate 9 x = [x, x, x, x, x, x, x, x, x]" for x :: "byte list"
    by (simp add: numeral_eq_Suc)
  show ?thesis
    unfolding r8 r9
    by (simp add: reader_eval parse_eval win_send_def)
qed

section \<open>The edge detector\<close>

lemma events_of_append [simp]: "events_of (xs @ ys) = events_of xs @ events_of ys"
  by (induction xs rule: events_of.induct) simp_all

lemma edges_Cons_edge:
  "ev d = (online, why, None) \<Longrightarrow> online \<noteq> l \<Longrightarrow>
   edges ev l ((d, rs) # fs) =
     \<lparr> Online = online, ChangedAt = d, Cause = (if rs \<noteq> [] then rs @ ''; '' @ why else why) \<rparr> #
       edges ev online fs"
  by simp

lemma edges_Cons_none:
  "ev d = (online, why, err) \<Longrightarrow> err \<noteq> None \<or> online = l \<Longrightarrow>
   edges ev l ((d, rs) # fs) = edges ev l fs"
  by auto

lemma last_after_Cons_edge:
  "ev d = (online, why, None) \<Longrightarrow> online \<noteq> l \<Longrightarrow>
   last_after ev l ((d, rs) # fs) = last_after ev online fs"
  by simp

lemma last_after_Cons_none:
  "ev d = (online, why, err) \<Longrightarrow> err \<noteq> None \<or> online = l \<Longrightarrow>
   last_after ev l ((d, rs) # fs) = last_after ev l fs"
  by auto

lemma edges_append:
  "edges ev l (fs @ gs) = edges ev l fs @ edges ev (last_after ev l fs) gs"
proof (induction fs arbitrary: l)
  case Nil
  then show ?case by simp
next
  case (Cons f fs)
  obtain d rs where f: "f = (d, rs)" by (cases f)
  obtain online why err where r: "ev d = (online, why, err)" by (cases "ev d")
  show ?case
  proof (cases "err = None \<and> online \<noteq> l")
    case True
    then have r': "ev d = (online, why, None)" and ne: "online \<noteq> l" using r by simp_all
    show ?thesis
      unfolding f append_Cons edges_Cons_edge [where ev = ev and d = d, OF r' ne] last_after_Cons_edge [where ev = ev and d = d, OF r' ne]
      using Cons.IH [of online] by simp
  next
    case False
    then have c: "err \<noteq> None \<or> online = l" by auto
    show ?thesis
      unfolding f append_Cons edges_Cons_none [where ev = ev and d = d, OF r c] last_after_Cons_none [where ev = ev and d = d, OF r c]
      using Cons.IH [of l] by simp
  qed
qed

lemma last_after_append:
  "last_after ev l (fs @ gs) = last_after ev (last_after ev l fs) gs"
proof (induction fs arbitrary: l)
  case Nil
  then show ?case by simp
next
  case (Cons f fs)
  obtain d rs where f: "f = (d, rs)" by (cases f)
  obtain online why err where r: "ev d = (online, why, err)" by (cases "ev d")
  show ?case
  proof (cases "err = None \<and> online \<noteq> l")
    case True
    then have r': "ev d = (online, why, None)" and ne: "online \<noteq> l" using r by simp_all
    show ?thesis
      unfolding f append_Cons last_after_Cons_edge [where ev = ev and d = d, OF r' ne]
      using Cons.IH [of online] by simp
  next
    case False
    then have c: "err \<noteq> None \<or> online = l" by auto
    show ?thesis
      unfolding f append_Cons last_after_Cons_none [where ev = ev and d = d, OF r c]
      using Cons.IH [of l] by simp
  qed
qed

text \<open>In the description, an event never has the value of the one before it.\<close>

lemma edges_distinct_adj: "distinct_adj (l # map Online (edges ev l fs))"
proof (induction fs arbitrary: l)
  case Nil
  then show ?case by simp
next
  case (Cons f fs)
  obtain d rs where f: "f = (d, rs)" by (cases f)
  obtain online why err where r: "ev d = (online, why, err)" by (cases "ev d")
  show ?case
  proof (cases "err = None \<and> online \<noteq> l")
    case True
    then have r': "ev d = (online, why, None)" and ne: "online \<noteq> l" using r by simp_all
    show ?thesis
      unfolding f edges_Cons_edge [where ev = ev and d = d, OF r' ne]
      using Cons.IH [of online] ne by simp
  next
    case False
    then have c: "err \<noteq> None \<or> online = l" by auto
    show ?thesis
      unfolding f edges_Cons_none [where ev = ev and d = d, OF r c]
      using Cons.IH [of l] by simp
  qed
qed

lemma edges_last: "Online e = l \<Longrightarrow> Online (last (e # edges ev l fs)) = last_after ev l fs"
proof (induction fs arbitrary: e l)
  case Nil
  then show ?case by simp
next
  case (Cons f fs)
  obtain d rs where f: "f = (d, rs)" by (cases f)
  obtain online why err where r: "ev d = (online, why, err)" by (cases "ev d")
  show ?case
  proof (cases "err = None \<and> online \<noteq> l")
    case True
    then have r': "ev d = (online, why, None)" and ne: "online \<noteq> l" using r by simp_all
    let ?e' = "\<lparr> Online = online, ChangedAt = d,
                 Cause = (if rs \<noteq> [] then rs @ ''; '' @ why else why) \<rparr>"
    have "Online (last (?e' # edges ev online fs)) = last_after ev online fs"
      by (rule Cons.IH) simp
    then show ?thesis
      unfolding f edges_Cons_edge [where ev = ev and d = d, OF r' ne] last_after_Cons_edge [where ev = ev and d = d, OF r' ne]
      by simp
  next
    case False
    then have c: "err \<noteq> None \<or> online = l" by auto
    show ?thesis
      unfolding f edges_Cons_none [where ev = ev and d = d, OF r c] last_after_Cons_none [where ev = ev and d = d, OF r c]
      using Cons.IH [OF Cons.prems] .
  qed
qed

text \<open>What \<^verbatim>\<open>trigger\<close> changes.\<close>

lemma trigger_fields [simp]:
  "evaluations (trigger r now st) = evaluations st @ [now]"
  "lastReason (trigger r now st) = lastReason st"
  "debounceTimer (trigger r now st) = debounceTimer st"
  "stopped (trigger r now st) = stopped st"
  by (cases r; simp add: trigger_def Let_def split: option.splits)+

lemma trigger_events:
  "events_of (trace (trigger (ev d) d st)) =
     events_of (trace st) @ edges ev (last_online st) [(d, lastReason st)]"
  by (cases "ev d") (simp add: trigger_def Let_def split: option.splits)

lemma trigger_last:
  "last_online (trigger (ev d) d st) = last_after ev (last_online st) [(d, lastReason st)]"
  by (cases "ev d") (simp add: trigger_def Let_def split: option.splits)

lemma trigger_trace: "prefix (trace st) (trace (trigger r now st))"
  by (cases r) (simp add: trigger_def Let_def split: option.splits)

text \<open>The passing of time, against the description.\<close>

lemma fire_due_fields [simp]:
  "lastReason (fire_due ev t st) = lastReason st"
  "stopped (fire_due ev t st) = stopped st"
  by (simp_all add: fire_due_def split: option.splits)

lemma fire_due_spec:
  assumes "\<not> stopped st"
  shows "evaluations (fire_due ev t st) =
           evaluations st @ map fst (due (debounceTimer st) (lastReason st) t)"
    and "events_of (trace (fire_due ev t st)) =
           events_of (trace st) @ edges ev (last_online st) (due (debounceTimer st) (lastReason st) t)"
    and "last_online (fire_due ev t st) =
           last_after ev (last_online st) (due (debounceTimer st) (lastReason st) t)"
    and "debounceTimer (fire_due ev t st) = still_pending (debounceTimer st) t"
  using assms
  by (simp_all add: fire_due_def due_def still_pending_def trigger_events trigger_last
      split: option.splits)

lemma fire_due_trace: "prefix (trace st) (trace (fire_due ev t st))"
  using trigger_trace [of "st\<lparr>debounceTimer := None\<rparr>"]
  by (simp add: fire_due_def split: option.splits)

lemma fire_due_stopped: "stopped st \<Longrightarrow> fire_due ev t st = st"
  by (simp add: fire_due_def split: option.splits)

lemma watch_step_stopped: "stopped st \<Longrightarrow> watch_step ev st inp = st"
  by (simp add: watch_step_def Let_def fire_due_stopped)

lemma foldl_stopped: "stopped st \<Longrightarrow> foldl (watch_step ev) st inps = st"
  by (induction inps) (simp_all add: watch_step_stopped)

lemma watch_step_trace: "prefix (trace st) (trace (watch_step ev st inp))"
proof -
  have "prefix (trace (fire_due ev (fst inp) st)) (trace (watch_step ev st inp))"
    by (simp add: watch_step_def Let_def split: watch_input.splits option.splits)
  with fire_due_trace [of st ev "fst inp"] show ?thesis
    by (rule prefix_order.trans)
qed

lemma foldl_trace: "prefix (trace st) (trace (foldl (watch_step ev) st inps))"
proof (induction inps arbitrary: st)
  case Nil
  then show ?case by simp
next
  case (Cons a inps)
  from watch_step_trace [of st ev a] Cons [of "watch_step ev st a"]
  show ?case by (simp add: prefix_order.trans)
qed

text \<open>
  A run from any state that has not stopped, against the description: the instants of
  the evaluations are those of the firings, and the events added are the edges.
\<close>

lemma run_spec:
  assumes "\<not> stopped st"
  shows "evaluations (fire_due ev T (foldl (watch_step ev) st inps)) =
           evaluations st @ map fst (firings (lastReason st) (debounceTimer st) inps T) \<and>
         events_of (trace (fire_due ev T (foldl (watch_step ev) st inps))) =
           events_of (trace st) @
             edges ev (last_online st) (firings (lastReason st) (debounceTimer st) inps T) \<and>
         last_online (fire_due ev T (foldl (watch_step ev) st inps)) =
           last_after ev (last_online st) (firings (lastReason st) (debounceTimer st) inps T)"
  using assms
proof (induction inps arbitrary: st)
  case Nil
  then show ?case by (simp add: fire_due_spec)
next
  case (Cons a inps)
  obtain t i where a: "a = (t, i)" by (cases a)
  let ?sf = "fire_due ev t st"
  let ?du = "due (debounceTimer st) (lastReason st) t"
  have sf: "\<not> stopped ?sf" using Cons.prems by simp
  note fd = fire_due_spec [OF Cons.prems, of ev t]
  show ?case
  proof (cases i)
    case (OSEvent r)
    let ?s1 = "?sf\<lparr>lastReason := r, debounceTimer := Some (t + debounce)\<rparr>"
    have s1: "watch_step ev st a = ?s1"
      using a OSEvent sf by (simp add: watch_step_def Let_def)
    have ns: "\<not> stopped ?s1" using sf by simp
    from Cons.IH [OF ns] show ?thesis
      using a OSEvent s1 fd by (simp add: edges_append last_after_append)
  next
    case (SrcError e)
    let ?s1 = "watch_step ev st a"
    have s1: "\<not> stopped ?s1" "lastReason ?s1 = lastReason st"
      "debounceTimer ?s1 = still_pending (debounceTimer st) t"
      "evaluations ?s1 = evaluations ?sf" "events_of (trace ?s1) = events_of (trace ?sf)"
      "last_online ?s1 = last_online ?sf"
      using a SrcError sf fd(4) by (simp_all add: watch_step_def Let_def split: option.splits)
    from Cons.IH [OF s1(1)] show ?thesis
      using a SrcError s1 fd by (simp add: edges_append last_after_append)
  next
    case CtxDone
    let ?s1 = "?sf\<lparr>debounceTimer := None, stopped := True\<rparr>"
    have s1: "watch_step ev st a = ?s1"
      using a CtxDone sf by (simp add: watch_step_def Let_def)
    have "fire_due ev T (foldl (watch_step ev) ?s1 inps) = ?s1"
      by (simp add: foldl_stopped fire_due_stopped)
    then show ?thesis using a CtxDone s1 fd by simp
  qed
qed

text \<open>A whole run of \<^verbatim>\<open>Watch\<close>.\<close>

lemma Watch_start_fields [simp]:
  "\<not> stopped (Watch_start r t0)"
  "lastReason (Watch_start r t0) = []"
  "debounceTimer (Watch_start r t0) = None"
  "evaluations (Watch_start r t0) = []"
  "last_online (Watch_start r t0) = fst r"
  "events_of (trace (Watch_start r t0)) = [initial_event r t0]"
  by (cases r; simp add: Watch_start_def initial_event_def split: option.splits)+

lemma Watch_spec:
  "evaluations (Watch ev t0 inps T) = map fst (firings [] None inps T)"
  "events_of (trace (Watch ev t0 inps T)) =
     initial_event (ev t0) t0 # edges ev (fst (ev t0)) (firings [] None inps T)"
  "last_online (Watch ev t0 inps T) = last_after ev (fst (ev t0)) (firings [] None inps T)"
  using run_spec [of "Watch_start (ev t0) t0" ev T inps]
  by (simp_all add: Watch_def)

text \<open>
  Claim C1. In every run of \<^verbatim>\<open>Watch\<close>, whatever the evaluations give and whatever
  arrives, two consecutive events of the stream differ in \<open>Online\<close>, the initial event
  being the first. The stream is the initial event followed by the edges of the
  description: one event for every firing of the timer whose evaluation succeeds with
  a value other than that of the event before, and none for any other firing. The
  variable \<^verbatim>\<open>last\<close> holds the value of the last event. When \<^verbatim>\<open>trigger\<close> gets the value
  of \<^verbatim>\<open>last\<close> it sends nothing and changes nothing but the record of its call; when
  it gets the other value it sets \<^verbatim>\<open>last\<close> to it and sends one event with it.
\<close>

theorem watch_no_duplicate_edges:
  "(\<forall>i. Suc i < length (events_of (trace (Watch ev t0 inps T))) \<longrightarrow>
      Online (events_of (trace (Watch ev t0 inps T)) ! i) \<noteq>
      Online (events_of (trace (Watch ev t0 inps T)) ! Suc i)) \<and>
   events_of (trace (Watch ev t0 inps T)) =
     initial_event (ev t0) t0 # edges ev (fst (ev t0)) (firings [] None inps T) \<and>
   last_online (Watch ev t0 inps T) = Online (last (events_of (trace (Watch ev t0 inps T)))) \<and>
   (\<forall>st why now.
      trigger (last_online st, why, None) now st = st\<lparr>evaluations := evaluations st @ [now]\<rparr>) \<and>
   (\<forall>st online why now. online \<noteq> last_online st \<longrightarrow>
      last_online (trigger (online, why, None) now st) = online \<and>
      trace (trigger (online, why, None) now st) =
        trace st @ [EvOut \<lparr> Online = online, ChangedAt = now,
                             Cause = (if lastReason st \<noteq> [] then lastReason st @ ''; '' @ why
                                      else why) \<rparr>])"
proof -
  let ?es = "events_of (trace (Watch ev t0 inps T))"
  let ?fs = "firings [] None inps T"
  have es: "?es = initial_event (ev t0) t0 # edges ev (fst (ev t0)) ?fs"
    by (rule Watch_spec)
  have o: "Online (initial_event (ev t0) t0) = fst (ev t0)"
    by (simp add: initial_event_def)
  have "distinct_adj (map Online ?es)"
    unfolding es using edges_distinct_adj [of "fst (ev t0)" ev ?fs] o by simp
  then have adj: "\<forall>i. Suc i < length ?es \<longrightarrow> Online (?es ! i) \<noteq> Online (?es ! Suc i)"
    by (simp add: distinct_adj_conv_nth)
  have l: "last_online (Watch ev t0 inps T) = Online (last ?es)"
    unfolding es using edges_last [OF o, of ev ?fs] Watch_spec(3) [of ev t0 inps T] by simp
  have same: "\<forall>st why now.
      trigger (last_online st, why, None) now st = st\<lparr>evaluations := evaluations st @ [now]\<rparr>"
    by (simp add: trigger_def Let_def)
  have other: "\<forall>st online why now. online \<noteq> last_online st \<longrightarrow>
      last_online (trigger (online, why, None) now st) = online \<and>
      trace (trigger (online, why, None) now st) =
        trace st @ [EvOut \<lparr> Online = online, ChangedAt = now,
                             Cause = (if lastReason st \<noteq> [] then lastReason st @ ''; '' @ why
                                      else why) \<rparr>]"
    by (simp add: trigger_def Let_def)
  from adj es l same other show ?thesis by blast
qed

theorem watch_no_duplicate_edges_witness:
  "events_of (trace (Watch (\<lambda>t. (t < 5, ''no default route'', None)) 0
      [(1, OSEvent ''route change'')] 1000000000)) =
     [\<lparr> Online = True, ChangedAt = 0, Cause = ''initial: no default route'' \<rparr>,
      \<lparr> Online = False, ChangedAt = 750000001, Cause = ''route change; no default route'' \<rparr>] \<and>
   Online (events_of (trace (Watch (\<lambda>t. (t < 5, ''no default route'', None)) 0
      [(1, OSEvent ''route change'')] 1000000000)) ! 0) \<noteq>
   Online (events_of (trace (Watch (\<lambda>t. (t < 5, ''no default route'', None)) 0
      [(1, OSEvent ''route change'')] 1000000000)) ! Suc 0)"
proof -
  let ?ev = "\<lambda>t :: int. (t < 5, ''no default route'', None :: string option)"
  let ?es = "events_of (trace (Watch ?ev 0 [(1, OSEvent ''route change'')] 1000000000))"
  have es: "?es = [\<lparr> Online = True, ChangedAt = 0, Cause = ''initial: no default route'' \<rparr>,
      \<lparr> Online = False, ChangedAt = 750000001, Cause = ''route change; no default route'' \<rparr>]"
    using watch_no_duplicate_edges [of ?ev 0 "[(1, OSEvent ''route change'')]" 1000000000]
    by (simp add: initial_event_def due_def debounce_def Millisecond_def)
  have "Suc 0 < length ?es" unfolding es by simp
  with watch_no_duplicate_edges [of ?ev 0 "[(1, OSEvent ''route change'')]" 1000000000]
  have "Online (?es ! 0) \<noteq> Online (?es ! Suc 0)" by blast
  with es show ?thesis by blast
qed

text \<open>The description of the firings, for events that follow each other closely.\<close>

lemma firings_spaced:
  assumes "tes \<noteq> []" and "spaced_below debounce (map fst tes)"
    and "case pend of None \<Rightarrow> True | Some d \<Rightarrow> fst (hd tes) < d"
  shows "firings rs pend (map (\<lambda>(t, r). (t, OSEvent r)) tes) T =
           due (Some (fst (last tes) + debounce)) (snd (last tes)) T"
  using assms
proof (induction tes arbitrary: rs pend)
  case Nil
  then show ?case by simp
next
  case (Cons a tes)
  obtain t r where a: "a = (t, r)" by (cases a)
  have nd: "due pend rs t = []"
    using Cons.prems(3) a by (simp add: due_def split: option.splits)
  show ?case
  proof (cases tes)
    case Nil
    then show ?thesis using a nd by simp
  next
    case (Cons b tes')
    have sp: "spaced_below debounce (map fst tes)" and lt: "fst (hd tes) < t + debounce"
      using Cons.prems(2) a Cons by simp_all
    have "firings r (Some (t + debounce)) (map (\<lambda>(t, r). (t, OSEvent r)) tes) T =
           due (Some (fst (last tes) + debounce)) (snd (last tes)) T"
      using Cons sp lt by (intro Cons.IH) simp_all
    then show ?thesis using a nd Cons by simp
  qed
qed

text \<open>
  Claim C2. Let OS events arrive one after the other, each less than 750 ms after the
  one before it, and nothing else. Then \<^verbatim>\<open>trigger\<close> calls the evaluation exactly once,
  750 ms after the last event, and not before: at any instant \<open>T\<close> the evaluations made
  so far are that one, if the events are not none and \<open>T\<close> has reached that instant, and
  none otherwise; the stream then holds the initial event and the edge, if any, of
  that one evaluation with the reason of the last event. In any run the evaluations
  are made at the firings of the description. An OS event handled by the goroutine
  leaves its reason in \<^verbatim>\<open>lastReason\<close> and the timer armed for 750 ms after it,
  whatever was armed before.
\<close>

theorem debounce_single_evaluation:
  assumes "spaced_below debounce (map fst tes)"
  shows "evaluations (Watch ev t0 (map (\<lambda>(t, r). (t, OSEvent r)) tes) T) =
           (if tes = [] \<or> T < fst (last tes) + debounce then []
            else [fst (last tes) + debounce]) \<and>
         events_of (trace (Watch ev t0 (map (\<lambda>(t, r). (t, OSEvent r)) tes) T)) =
           initial_event (ev t0) t0 #
             edges ev (fst (ev t0))
               (if tes = [] \<or> T < fst (last tes) + debounce then []
                else [(fst (last tes) + debounce, snd (last tes))]) \<and>
         (\<forall>inps. evaluations (Watch ev t0 inps T) = map fst (firings [] None inps T)) \<and>
         (\<forall>st t r. \<not> stopped st \<longrightarrow>
            lastReason (watch_step ev st (t, OSEvent r)) = r \<and>
            debounceTimer (watch_step ev st (t, OSEvent r)) = Some (t + debounce))"
proof -
  let ?inps = "map (\<lambda>(t, r). (t, OSEvent r)) tes"
  have fs: "firings [] None ?inps T =
      (if tes = [] \<or> T < fst (last tes) + debounce then []
       else [(fst (last tes) + debounce, snd (last tes))])"
  proof (cases "tes = []")
    case True
    then show ?thesis by (simp add: due_def)
  next
    case False
    from firings_spaced [OF False assms, of None "[]" T] show ?thesis
      using False by (simp add: due_def)
  qed
  have step: "\<forall>st t r. \<not> stopped st \<longrightarrow>
            lastReason (watch_step ev st (t, OSEvent r)) = r \<and>
            debounceTimer (watch_step ev st (t, OSEvent r)) = Some (t + debounce)"
    by (simp add: watch_step_def Let_def)
  have e1: "evaluations (Watch ev t0 ?inps T) =
           (if tes = [] \<or> T < fst (last tes) + debounce then []
            else [fst (last tes) + debounce])"
    unfolding Watch_spec(1) fs by simp
  have e2: "events_of (trace (Watch ev t0 ?inps T)) =
           initial_event (ev t0) t0 #
             edges ev (fst (ev t0))
               (if tes = [] \<or> T < fst (last tes) + debounce then []
                else [(fst (last tes) + debounce, snd (last tes))])"
    unfolding Watch_spec(2) fs by (rule refl)
  have e3: "\<forall>inps. evaluations (Watch ev t0 inps T) = map fst (firings [] None inps T)"
    by (simp add: Watch_spec(1))
  from e1 e2 e3 step show ?thesis by blast
qed

theorem debounce_single_evaluation_witness:
  "spaced_below debounce [0, 50000000, 100000000] \<and>
   evaluations (Watch (\<lambda>t. (t < 5, ''no default route'', None)) 0
     [(0, OSEvent ''link change''), (50000000, OSEvent ''addr change''),
      (100000000, OSEvent ''route change'')] 1000000000) = [850000000] \<and>
   evaluations (Watch (\<lambda>t. (t < 5, ''no default route'', None)) 0
     [(0, OSEvent ''link change''), (50000000, OSEvent ''addr change''),
      (100000000, OSEvent ''route change'')] 849999999) = []"
proof -
  let ?tes = "[(0, ''link change''), (50000000, ''addr change''), (100000000, ''route change'')]
    :: (int \<times> string) list"
  have sp: "spaced_below debounce (map fst ?tes)"
    by (simp add: debounce_def Millisecond_def)
  from debounce_single_evaluation
      [OF sp, of "\<lambda>t. (t < 5, ''no default route'', None)" 0 1000000000, THEN conjunct1]
    debounce_single_evaluation
      [OF sp, of "\<lambda>t. (t < 5, ''no default route'', None)" 0 849999999, THEN conjunct1]
    sp
  show ?thesis by (simp add: debounce_def Millisecond_def)
qed

text \<open>The reasons and the causes that the description can produce.\<close>

lemma firings_reasons:
  "(d, rs) \<in> set (firings rs0 pend inps T) \<Longrightarrow> rs = rs0 \<or> (\<exists>t. (t, OSEvent rs) \<in> set inps)"
proof (induction rs0 pend inps T rule: firings.induct)
  case (1 rs pend T)
  then show ?case by (auto simp: due_def split: option.splits if_splits)
next
  case (2 rs pend t r inps T)
  then show ?case by (auto simp: due_def split: option.splits if_splits)
next
  case (3 rs pend t e inps T)
  then show ?case by (auto simp: due_def split: option.splits if_splits)
next
  case (4 rs pend t inps T)
  then show ?case by (auto simp: due_def split: option.splits if_splits)
qed

lemma edges_causes:
  "e \<in> set (edges ev l fs) \<Longrightarrow>
   \<exists>d rs. (d, rs) \<in> set fs \<and>
     Cause e = (if rs \<noteq> [] then rs @ ''; '' @ fst (snd (ev d)) else fst (snd (ev d)))"
proof (induction fs arbitrary: l)
  case Nil
  then show ?case by simp
next
  case (Cons f fs)
  obtain d rs where f: "f = (d, rs)" by (cases f)
  obtain online why err where r: "ev d = (online, why, err)" by (cases "ev d")
  show ?case
  proof (cases "err = None \<and> online \<noteq> l")
    case True
    then have r': "ev d = (online, why, None)" and ne: "online \<noteq> l" using r by simp_all
    from Cons.prems have "e = \<lparr> Online = online, ChangedAt = d,
        Cause = (if rs \<noteq> [] then rs @ ''; '' @ why else why) \<rparr> \<or> e \<in> set (edges ev online fs)"
      unfolding f edges_Cons_edge [where ev = ev and d = d, OF r' ne] by simp
    then show ?thesis
    proof
      assume "e = \<lparr> Online = online, ChangedAt = d,
        Cause = (if rs \<noteq> [] then rs @ ''; '' @ why else why) \<rparr>"
      then have "(d, rs) \<in> set (f # fs) \<and>
          Cause e = (if rs \<noteq> [] then rs @ ''; '' @ fst (snd (ev d)) else fst (snd (ev d)))"
        using f r' by simp
      then show ?thesis by blast
    next
      assume "e \<in> set (edges ev online fs)"
      from Cons.IH [OF this] obtain d' rs' where "(d', rs') \<in> set fs"
        "Cause e = (if rs' \<noteq> [] then rs' @ ''; '' @ fst (snd (ev d')) else fst (snd (ev d')))"
        by blast
      then have "(d', rs') \<in> set (f # fs) \<and>
        Cause e = (if rs' \<noteq> [] then rs' @ ''; '' @ fst (snd (ev d')) else fst (snd (ev d')))"
        by simp
      then show ?thesis by blast
    qed
  next
    case False
    then have c: "err \<noteq> None \<or> online = l" by auto
    from Cons.prems have "e \<in> set (edges ev l fs)"
      unfolding f edges_Cons_none [where ev = ev and d = d, OF r c] .
    from Cons.IH [OF this] obtain d' rs' where "(d', rs') \<in> set fs"
      "Cause e = (if rs' \<noteq> [] then rs' @ ''; '' @ fst (snd (ev d')) else fst (snd (ev d')))"
      by blast
    then have "(d', rs') \<in> set (f # fs) \<and>
      Cause e = (if rs' \<noteq> [] then rs' @ ''; '' @ fst (snd (ev d')) else fst (snd (ev d')))"
      by simp
    then show ?thesis by blast
  qed
qed

lemma no_initial_prefix_append:
  assumes "\<not> prefix ''initial: '' rs" and "rs \<noteq> []"
  shows "\<not> prefix ''initial: '' (rs @ ''; '' @ why)"
proof
  assume "prefix ''initial: '' (rs @ ''; '' @ why)"
  then have "prefix ''initial: '' rs \<or> (\<exists>us. ''initial: '' = rs @ us \<and> prefix us (''; '' @ why))"
    by (simp add: prefix_append)
  with assms(1) obtain us where us: "''initial: '' = rs @ us" "prefix us (''; '' @ why)"
    by blast
  have "us \<noteq> []" using us(1) assms(1) by auto
  then obtain u us' where u: "us = u # us'" by (cases us) auto
  then have "u = CHR '';''" using us(2) by simp
  then have "CHR '';'' \<in> set (rs @ us)" using u by simp
  then have "CHR '';'' \<in> set ''initial: ''" using us(1) by simp
  then show False by simp
qed

lemma Watch_start_trace:
  "trace (Watch_start r t0) =
     (case snd (snd r) of Some e \<Rightarrow> [ErrOut e] | None \<Rightarrow> []) @ [EvOut (initial_event r t0)]"
  by (cases r) (simp add: Watch_start_def initial_event_def)

text \<open>
  Claim C3. Every run of \<^verbatim>\<open>Watch\<close> starts with one evaluation, made at the start, and
  what it sends begins with the error of that evaluation, if there is one, followed by
  the initial event: the value of the evaluation, the instant of the start and the
  cause after \<^verbatim>\<open>initial: \<close>. That event is the first of the stream, also when the
  evaluation failed. The events after it are the edges counted from the value of the
  initial evaluation, which is thus what \<^verbatim>\<open>last\<close> holds at first; and none of them has a
  cause that starts with \<^verbatim>\<open>initial: \<close>, as long as no cause given by the evaluations and
  no reason given by the OS event source starts so.
\<close>

theorem watch_initial_event:
  "prefix ((case snd (snd (ev t0)) of Some e \<Rightarrow> [ErrOut e] | None \<Rightarrow> []) @
           [EvOut \<lparr> Online = fst (ev t0), ChangedAt = t0,
                    Cause = ''initial: '' @ fst (snd (ev t0)) \<rparr>])
     (trace (Watch ev t0 inps T)) \<and>
   hd (events_of (trace (Watch ev t0 inps T))) =
     \<lparr> Online = fst (ev t0), ChangedAt = t0, Cause = ''initial: '' @ fst (snd (ev t0)) \<rparr> \<and>
   tl (events_of (trace (Watch ev t0 inps T))) = edges ev (fst (ev t0)) (firings [] None inps T) \<and>
   ((\<forall>t. \<not> prefix ''initial: '' (fst (snd (ev t)))) \<and>
    (\<forall>x\<in>set inps. \<forall>r. snd x = OSEvent r \<longrightarrow> \<not> prefix ''initial: '' r) \<longrightarrow>
    (\<forall>e\<in>set (tl (events_of (trace (Watch ev t0 inps T)))). \<not> prefix ''initial: '' (Cause e)))"
proof -
  let ?fs = "firings [] None inps T"
  have es: "events_of (trace (Watch ev t0 inps T)) =
      initial_event (ev t0) t0 # edges ev (fst (ev t0)) ?fs"
    by (rule Watch_spec)
  have "prefix (trace (Watch_start (ev t0) t0)) (trace (foldl (watch_step ev) (Watch_start (ev t0) t0) inps))"
    by (rule foldl_trace)
  also have "prefix \<dots> (trace (Watch ev t0 inps T))"
    unfolding Watch_def by (rule fire_due_trace)
  finally have p: "prefix ((case snd (snd (ev t0)) of Some e \<Rightarrow> [ErrOut e] | None \<Rightarrow> []) @
           [EvOut \<lparr> Online = fst (ev t0), ChangedAt = t0,
                    Cause = ''initial: '' @ fst (snd (ev t0)) \<rparr>])
     (trace (Watch ev t0 inps T))"
    by (simp add: Watch_start_trace initial_event_def)
  have rest: "\<not> prefix ''initial: '' (Cause e)"
    if c: "\<forall>t. \<not> prefix ''initial: '' (fst (snd (ev t)))"
      and rsn: "\<forall>x\<in>set inps. \<forall>r. snd x = OSEvent r \<longrightarrow> \<not> prefix ''initial: '' r"
      and e: "e \<in> set (edges ev (fst (ev t0)) ?fs)" for e
  proof -
    from edges_causes [OF e] obtain d rs where d: "(d, rs) \<in> set ?fs"
      "Cause e = (if rs \<noteq> [] then rs @ ''; '' @ fst (snd (ev d)) else fst (snd (ev d)))"
      by blast
    show ?thesis
    proof (cases "rs = []")
      case True
      then show ?thesis using d(2) c by simp
    next
      case False
      with firings_reasons [OF d(1)] obtain t where "(t, OSEvent rs) \<in> set inps" by auto
      with rsn have "\<not> prefix ''initial: '' rs" by force
      from no_initial_prefix_append [OF this False] show ?thesis using d(2) False by simp
    qed
  qed
  show ?thesis
    using p rest unfolding es by (simp add: initial_event_def)
qed

theorem watch_initial_event_witness:
  "prefix [ErrOut ''boom'',
           EvOut \<lparr> Online = True, ChangedAt = 0, Cause = ''initial: no default route'' \<rparr>]
     (trace (Watch (\<lambda>t. (t < 5, ''no default route'', if t = 0 then Some ''boom'' else None)) 0
        [(1, OSEvent ''route change'')] 1000000000)) \<and>
   tl (events_of (trace (Watch (\<lambda>t. (t < 5, ''no default route'', if t = 0 then Some ''boom'' else None)) 0
        [(1, OSEvent ''route change'')] 1000000000))) =
     [\<lparr> Online = False, ChangedAt = 750000001, Cause = ''route change; no default route'' \<rparr>] \<and>
   \<not> prefix ''initial: '' ''route change; no default route''"
proof -
  let ?ev = "\<lambda>t :: int. (t < 5, ''no default route'', if t = 0 then Some ''boom'' else None)"
  let ?w = "Watch ?ev 0 [(1, OSEvent ''route change'')] 1000000000"
  have h1: "\<forall>t :: int. \<not> prefix ''initial: '' (fst (snd (?ev t)))" by simp
  have h2: "\<forall>x\<in>set [(1 :: int, OSEvent ''route change'')]. \<forall>r. snd x = OSEvent r \<longrightarrow>
      \<not> prefix ''initial: '' r" by simp
  note w = watch_initial_event [of ?ev 0 "[(1, OSEvent ''route change'')]" 1000000000]
  have p: "prefix [ErrOut ''boom'',
           EvOut \<lparr> Online = True, ChangedAt = 0, Cause = ''initial: no default route'' \<rparr>]
     (trace ?w)"
    using w by simp
  have t: "tl (events_of (trace ?w)) =
     [\<lparr> Online = False, ChangedAt = 750000001, Cause = ''route change; no default route'' \<rparr>]"
    using w by (simp add: due_def debounce_def Millisecond_def)
  have "\<forall>e\<in>set (tl (events_of (trace ?w))). \<not> prefix ''initial: '' (Cause e)"
    using w h1 h2 by blast
  then have "\<not> prefix ''initial: '' ''route change; no default route''"
    unfolding t by simp
  with p t show ?thesis by blast
qed

section \<open>The Linux online evaluator\<close>

lemmas lib_eval = Fields_def isSpace_def TrimSpace_def SplitLines_def ScanLines_def dropCR_def
  MaxScanTokenSize_def digit_val_def maxUint64_def base_prefix_def underscoreOK_def ParseUint_def
  ParseInt_def digit_char_def byte_decimal_def

lemma replicate_numeral: "replicate (numeral k) x = x # replicate (pred_numeral k) x"
  by (simp add: numeral_eq_Suc)

lemmas host_eval = replicate_numeral recomputeOnline_def linuxDefaultRoute_def linuxIfaceUp_def
  ifaceHasUsableAddr_def arpIsReady_def InterfaceByName_def ifIndexToName_def hexToIPv4_def
  To4_def IsLoopback_def IsUnspecified_def IsLinkLocalUnicast_def IPv6loopback_def
  route_heading_def arp_heading_def eth0_def eth0_v6_def

text \<open>The two loops over the routing tables find a line if and only if there is one.\<close>

lemma route_scan_iff:
  "route_scan ls \<noteq> None \<longleftrightarrow>
     (\<exists>l\<in>set ls. 11 \<le> length (Fields l) \<and> Fields l ! 1 = ''00000000'' \<and>
        (ParseInt (Fields l ! 3) 16 64) AND 1 \<noteq> 0)"
  by (induction ls) (auto simp: Let_def)

lemma ipv6_route_scan_iff:
  "ipv6_route_scan ls \<noteq> None \<longleftrightarrow>
     (\<exists>l\<in>set ls. TrimSpace l \<noteq> [] \<and> 10 \<le> length (Fields (TrimSpace l)) \<and>
        Fields (TrimSpace l) ! 1 = ''000'')"
  by (induction ls) (auto simp: Let_def)

text \<open>
  The first layer as the code has it: a line of \<^verbatim>\<open>/proc/net/route\<close> after the heading
  with eleven fields, the destination \<^verbatim>\<open>00000000\<close> and the lowest bit of the flags set,
  or a line of \<^verbatim>\<open>/proc/net/ipv6_route\<close> with ten fields of which the second is \<^verbatim>\<open>000\<close>.
\<close>

lemma linuxDefaultRoute_iff:
  "fst (linuxDefaultRoute h) \<longleftrightarrow>
     (\<exists>f. proc_net_route h = Some f \<and> route_scan (drop 1 (ScanLines f)) \<noteq> None) \<or>
     (\<exists>d. proc_net_ipv6_route h = Some d \<and> ipv6_route_scan (SplitLines d) \<noteq> None)"
  by (auto simp: linuxDefaultRoute_def split: option.splits)

lemma linuxDefaultRoute_no_error: "snd (snd (snd (linuxDefaultRoute h))) = None"
  by (simp add: linuxDefaultRoute_def split: option.splits prod.splits)

lemma linuxIfaceUp_no_error: "snd (linuxIfaceUp h name) = None"
  by (simp add: linuxIfaceUp_def)

text \<open>
  On Linux, \<^verbatim>\<open>recomputeOnline\<close> never returns an error, and never one of the two causes
  that end with \<^verbatim>\<open>check failed\<close>.
\<close>

lemma recomputeOnline_no_error:
  "snd (snd (recomputeOnline isIPv4 h)) = None \<and>
   fst (snd (recomputeOnline isIPv4 h)) \<noteq> ''default route check failed'' \<and>
   fst (snd (recomputeOnline isIPv4 h)) \<noteq> ''iface state check failed''"
proof -
  obtain hasDef ifname gw err where d: "linuxDefaultRoute h = (hasDef, ifname, gw, err)"
    by (cases "linuxDefaultRoute h")
  have e: "err = None" using linuxDefaultRoute_no_error [of h] d by simp
  obtain up err' where u: "linuxIfaceUp h ifname = (up, err')"
    by (cases "linuxIfaceUp h ifname")
  have e': "err' = None" using linuxIfaceUp_no_error [of h ifname] u by simp
  show ?thesis
    using e e' by (simp add: recomputeOnline_def d u)
qed

text \<open>
  Claim C8 (the code departs from it). When the evaluator cannot read the routing tables
  the error is to be surfaced and the cause to name the failing check. On the host
  \<open>host_unreadable\<close> neither \<^verbatim>\<open>/proc/net/route\<close> nor \<^verbatim>\<open>/proc/net/ipv6_route\<close> can be read:
  \<^verbatim>\<open>linuxDefaultRoute\<close> passes over both failures and returns no error, and
  \<^verbatim>\<open>recomputeOnline\<close> answers \<^verbatim>\<open>no default route\<close> without an error. On no host does it
  return an error or the cause \<^verbatim>\<open>default route check failed\<close>.
\<close>

theorem unreadable_routes_no_error:
  "proc_net_route host_unreadable = None \<and>
   proc_net_ipv6_route host_unreadable = None \<and>
   linuxDefaultRoute host_unreadable = (False, [], [], None) \<and>
   recomputeOnline isIPv4 host_unreadable = (False, ''no default route'', None) \<and>
   (\<forall>h. snd (snd (recomputeOnline isIPv4 h)) = None \<and>
        fst (snd (recomputeOnline isIPv4 h)) \<noteq> ''default route check failed'')"
proof -
  have a: "proc_net_route host_unreadable = None" "proc_net_ipv6_route host_unreadable = None"
    by (simp_all add: host_unreadable_def)
  have b: "linuxDefaultRoute host_unreadable = (False, [], [], None)"
    by (simp add: linuxDefaultRoute_def a)
  have c: "recomputeOnline isIPv4 host_unreadable = (False, ''no default route'', None)"
    by (simp add: recomputeOnline_def b)
  from a b c recomputeOnline_no_error [of isIPv4] show ?thesis by blast
qed

text \<open>
  Claim C4 (the code departs from it). The first layer is to pass when the IPv6 routing
  table has a default route. On the host \<open>host_ipv6_only\<close> the only line of
  \<^verbatim>\<open>/proc/net/ipv6_route\<close> is the route to \<^verbatim>\<open>::/0\<close> through \<^verbatim>\<open>eth0\<close>: its destination is all
  zeros and its prefix length is \<^verbatim>\<open>00\<close>, in the two digits in which the kernel prints it.
  The code compares the prefix length with \<^verbatim>\<open>000\<close>, finds no default route, and answers
  \<^verbatim>\<open>no default route\<close> although the interface is up, has a global address and a resolver
  is configured.
\<close>

theorem ipv6_default_route_not_found:
  "map Fields (SplitLines (the (proc_net_ipv6_route host_ipv6_only))) =
     [[''00000000000000000000000000000000'', ''00'', ''00000000000000000000000000000000'',
       ''00'', ''fe800000000000000000000000000001'', ''00000400'', ''00000001'', ''00000000'',
       ''00000003'', ''eth0''], []] \<and>
   linuxDefaultRoute host_ipv6_only = (False, [], [], None) \<and>
   recomputeOnline isIPv4 host_ipv6_only = (False, ''no default route'', None) \<and>
   linuxIfaceUp host_ipv6_only ''eth0'' = (True, None) \<and>
   ifaceHasUsableAddr host_ipv6_only ''eth0'' \<and>
   dns_resolver host_ipv6_only"
proof -
  have a: "map Fields (SplitLines (the (proc_net_ipv6_route host_ipv6_only))) =
     [[''00000000000000000000000000000000'', ''00'', ''00000000000000000000000000000000'',
       ''00'', ''fe800000000000000000000000000001'', ''00000400'', ''00000001'', ''00000000'',
       ''00000003'', ''eth0''], []]"
    by (simp add: host_ipv6_only_def lib_eval)
  have b: "linuxDefaultRoute host_ipv6_only = (False, [], [], None)"
    by (simp add: host_ipv6_only_def host_eval lib_eval)
  have c: "recomputeOnline isIPv4 host_ipv6_only = (False, ''no default route'', None)"
    by (simp add: recomputeOnline_def b)
  have d: "linuxIfaceUp host_ipv6_only ''eth0'' = (True, None)"
    by (simp add: host_ipv6_only_def host_eval lib_eval)
  have e: "ifaceHasUsableAddr host_ipv6_only ''eth0''"
    by (simp add: host_ipv6_only_def host_eval lib_eval)
  have f: "dns_resolver host_ipv6_only"
    by (simp add: host_ipv6_only_def)
  from a b c d e f show ?thesis by blast
qed

theorem ipv6_default_route_not_found_witness:
  "recomputeOnline dotted_quad host_ipv6_only = (False, ''no default route'', None) \<and>
   linuxIfaceUp host_ipv6_only ''eth0'' = (True, None) \<and>
   ifaceHasUsableAddr host_ipv6_only ''eth0''"
  using ipv6_default_route_not_found [of dotted_quad] by blast





end
